theory Spec2Isabelle
  imports Complex_Main "HOL-Library.AList"
begin

section \<open>Values and the data model\<close>

text \<open>
  A cell value of the grid (\<^verbatim>\<open>CellValue = number | string | boolean | null | undefined\<close>).
  Numbers are modelled as reals (NaN and the infinities are left out); strict equality
  \<^verbatim>\<open>===\<close> on these values is HOL equality. A row key is a cell value too: the source
  reads it from a column of the row (\<^verbatim>\<open>row[keyColumnName]\<close>) or takes the row's index.
\<close>

datatype CellValue = VUndefined | VNull | VBool bool | VNum real | VStr string

type_synonym RowKey = CellValue

text \<open>JavaScript's truthiness of a value, as \<^verbatim>\<open>a && b\<close> and \<^verbatim>\<open>if (a)\<close> read it.\<close>

fun truthy :: "CellValue \<Rightarrow> bool" where
  "truthy VUndefined = False"
| "truthy VNull = False"
| "truthy (VBool b) = b"
| "truthy (VNum n) = (n \<noteq> 0)"
| "truthy (VStr s) = (s \<noteq> [])"

text \<open>A nullable string (\<^verbatim>\<open>string | null\<close>, \<^verbatim>\<open>string | undefined\<close>) is truthy when it is
  present and not empty.\<close>

fun truthyStr :: "string option \<Rightarrow> bool" where
  "truthyStr None = False"
| "truthyStr (Some s) = (s \<noteq> [])"

text \<open>The only exception the modelled code raises: reading a property of \<^verbatim>\<open>undefined\<close>.\<close>

datatype error = TypeError

record RowSpan =
  mainRow :: bool
  mainRowKey :: RowKey
  count :: int
  spanCount :: int

text \<open>
  A \<^verbatim>\<open>RowSpanMap\<close> is a JavaScript object from column names to span entries. Its own
  properties are an association list in insertion order, read with \<^const>\<open>map_of\<close>, written
  with \<^const>\<open>AList.update\<close> (an existing key keeps its place, a new key goes last) and
  \<^const>\<open>AList.delete\<close>. The keys of a span map are the columns a row carries a span on; they
  are taken not to be names that \<^verbatim>\<open>Object.prototype\<close> defines, so that writing an entry
  creates or replaces an own property.
\<close>

type_synonym RowSpanMap = "(string \<times> RowSpan) list"

text \<open>
  A span map is a plain object (\<^verbatim>\<open>{}\<close> or an object spread), so reading it by a name it
  has no own property for falls through to \<^verbatim>\<open>Object.prototype\<close>. \<open>objectPrototype\<close> lists the
  names defined there. What \<^verbatim>\<open>rowSpanMap[columnName]\<close> gives for an arbitrary column name is
  \<open>readMember\<close>: the own entry, else the inherited member of that name (a function, or the
  prototype object for \<^verbatim>\<open>__proto__\<close>), else \<^verbatim>\<open>undefined\<close> (\<open>None\<close>). An inherited member is an
  object, hence truthy, and has none of the properties of a span entry: its \<^verbatim>\<open>mainRowKey\<close>
  and \<^verbatim>\<open>spanCount\<close> are \<^verbatim>\<open>undefined\<close>.
\<close>

definition objectPrototype :: "string list" where
  "objectPrototype =
     [''constructor'', ''__defineGetter__'', ''__defineSetter__'', ''hasOwnProperty'',
      ''__lookupGetter__'', ''__lookupSetter__'', ''isPrototypeOf'', ''propertyIsEnumerable'',
      ''toString'', ''valueOf'', ''__proto__'', ''toLocaleString'']"

datatype SpanMember = Own RowSpan | Inherited string

definition readMember :: "RowSpanMap \<Rightarrow> string \<Rightarrow> SpanMember option" where
  "readMember m colName =
     (case map_of m colName of
        Some rowSpan \<Rightarrow> Some (Own rowSpan)
      | None \<Rightarrow> if colName \<in> set objectPrototype then Some (Inherited colName) else None)"

fun memberMainRowKey :: "SpanMember \<Rightarrow> RowKey" where
  "memberMainRowKey (Own rowSpan) = mainRowKey rowSpan"
| "memberMainRowKey (Inherited name) = VUndefined"

text \<open>
  A row. The source's \<^verbatim>\<open>Row\<close> is one object holding the reserved properties and the cell
  values side by side; here the cell values live in \<open>cells\<close> (\<^const>\<open>VUndefined\<close> for an
  absent property) and \<open>rowSpanAttr\<close> is \<^verbatim>\<open>_attributes.rowSpan\<close>, the declared spans
  (\<open>None\<close> when \<^verbatim>\<open>_attributes\<close> or its \<^verbatim>\<open>rowSpan\<close> is absent). Before \<^verbatim>\<open>createRawRow\<close>
  has run the same object is an \<^verbatim>\<open>OptRow\<close>; the source fills it in place.
\<close>

record Row =
  rowKey :: RowKey
  sortKey :: CellValue
  rowSpanAttr :: "(string \<times> int) list option"
  rowSpanMap :: RowSpanMap
  cells :: "string \<Rightarrow> CellValue"

record SortColumn =
  columnName :: string
  ascending :: bool

record SortState =
  useClient :: bool
  columns :: "SortColumn list"

section \<open>Helpers of \<^verbatim>\<open>helper/common\<close> and \<^verbatim>\<open>helper/selection\<close>\<close>

text \<open>
  Modelled from the spec: \<^verbatim>\<open>helper/common.ts\<close> and \<^verbatim>\<open>helper/selection.ts\<close> are not among
  the sources. The definitions of this section follow how the sources use them:
  \<^verbatim>\<open>findPropIndex\<close> is the index of the first element whose property equals the value and
  \<^verbatim>\<open>-1\<close> when there is none (\<^verbatim>\<open>getRowSpanByRowKey\<close> tests for it), \<^verbatim>\<open>findProp\<close> is that element
  or \<^verbatim>\<open>undefined\<close>, \<^verbatim>\<open>isEmpty\<close> holds of \<^verbatim>\<open>undefined\<close> and of an object without keys,
  \<^verbatim>\<open>isBlank\<close> of the empty string, \<^verbatim>\<open>null\<close> and \<^verbatim>\<open>undefined\<close>, and \<^verbatim>\<open>getSortedRange\<close> puts
  the smaller end of a range first.
\<close>

fun findIndexFrom :: "nat \<Rightarrow> ('a \<Rightarrow> bool) \<Rightarrow> 'a list \<Rightarrow> int" where
  "findIndexFrom i P [] = - 1"
| "findIndexFrom i P (x # xs) = (if P x then int i else findIndexFrom (Suc i) P xs)"

definition findPropIndex :: "RowKey \<Rightarrow> Row list \<Rightarrow> int" where
  "findPropIndex v arr = findIndexFrom 0 (\<lambda>r. rowKey r = v) arr"

definition isNumber :: "CellValue \<Rightarrow> bool" where
  "isNumber v = (case v of VNum _ \<Rightarrow> True | _ \<Rightarrow> False)"

definition isString :: "CellValue \<Rightarrow> bool" where
  "isString v = (case v of VStr _ \<Rightarrow> True | _ \<Rightarrow> False)"

definition isBlank :: "CellValue \<Rightarrow> bool" where
  "isBlank v = (case v of VStr s \<Rightarrow> s = [] | VUndefined \<Rightarrow> True | VNull \<Rightarrow> True | _ \<Rightarrow> False)"

definition isEmpty :: "('k \<times> 'v) list \<Rightarrow> bool" where
  "isEmpty obj = (obj = [])"

definition getSortedRange :: "int \<times> int \<Rightarrow> int \<times> int" where
  "getSortedRange rng = (if fst rng > snd rng then (snd rng, fst rng) else rng)"

text \<open>Reading \<^verbatim>\<open>arr[i]\<close>: \<^verbatim>\<open>undefined\<close> (here \<open>None\<close>) outside the array.\<close>

definition js_nth :: "'a list \<Rightarrow> int \<Rightarrow> 'a option" where
  "js_nth xs i = (if 0 \<le> i \<and> i < int (length xs) then Some (xs ! nat i) else None)"

text \<open>\<^verbatim>\<open>Object.keys\<close>: every key once.\<close>

definition Object_keys :: "('k \<times> 'v) list \<Rightarrow> 'k list" where
  "Object_keys obj = remdups (map fst obj)"

section \<open>\<^verbatim>\<open>helper/rowSpan.ts\<close>: point queries\<close>

definition createRowSpan :: "bool \<Rightarrow> RowKey \<Rightarrow> int \<Rightarrow> int \<Rightarrow> RowSpan" where
  "createRowSpan mr key cnt sc = \<lparr>mainRow = mr, mainRowKey = key, count = cnt, spanCount = sc\<rparr>"

text \<open>\<^verbatim>\<open>getRowSpan\<close> returns \<^verbatim>\<open>rowSpanMap[columnName]\<close>: the entry, an inherited member or
  \<^verbatim>\<open>undefined\<close> (\<open>None\<close>); it raises when \<^verbatim>\<open>data[rowIndex]\<close> is \<^verbatim>\<open>undefined\<close>.\<close>

definition getRowSpan :: "int \<Rightarrow> string \<Rightarrow> Row list \<Rightarrow> error + SpanMember option" where
  "getRowSpan rowIndex colName data =
     (case js_nth data rowIndex of
        None \<Rightarrow> Inl TypeError
      | Some row \<Rightarrow> Inr (readMember (rowSpanMap row) colName))"

text \<open>\<^verbatim>\<open>getRowSpanByRowKey\<close>: \<open>Inr None\<close> is the source's \<^verbatim>\<open>null\<close>. A span entry and an
  inherited member are objects and so always truthy, hence \<^verbatim>\<open>getRowSpan(...) || null\<close> is
  \<^verbatim>\<open>null\<close> exactly for \<^verbatim>\<open>undefined\<close>.\<close>

definition getRowSpanByRowKey :: "RowKey \<Rightarrow> string \<Rightarrow> Row list \<Rightarrow> error + SpanMember option" where
  "getRowSpanByRowKey key colName data =
     (let rowIndex = findPropIndex key data in
      if rowIndex = - 1 then Inr None
      else getRowSpan rowIndex colName data)"

text \<open>\<^verbatim>\<open>isRowSpanEnabled\<close> raises when \<^verbatim>\<open>sortState.columns\<close> is empty.\<close>

definition isRowSpanEnabled :: "SortState \<Rightarrow> error + bool" where
  "isRowSpanEnabled st =
     (case columns st of
        [] \<Rightarrow> Inl TypeError
      | c # _ \<Rightarrow> Inr (columnName c = ''sortKey''))"

section \<open>\<^verbatim>\<open>store/data.ts\<close>: building the span maps in one forward pass\<close>

definition createMainRowSpanMap :: "(string \<times> int) list option \<Rightarrow> RowKey \<Rightarrow> RowSpanMap" where
  "createMainRowSpanMap rowSpan key =
     (case rowSpan of
        None \<Rightarrow> []
      | Some rs \<Rightarrow>
          fold (\<lambda>colName acc.
                  case map_of rs colName of
                    None \<Rightarrow> acc
                  | Some sc \<Rightarrow> AList.update colName (createRowSpan True key sc sc) acc)
               (Object_keys rs) [])"

definition createSubRowSpan :: "RowSpanMap \<Rightarrow> RowSpanMap" where
  "createSubRowSpan prevRowSpanMap =
     fold (\<lambda>colName acc.
             case map_of prevRowSpanMap colName of
               None \<Rightarrow> acc
             | Some prevRowSpan \<Rightarrow>
                 if spanCount prevRowSpan > 1 - count prevRowSpan then
                   (let subRowCount = (if count prevRowSpan \<ge> 0 then - 1 else count prevRowSpan - 1)
                    in AList.update colName
                         (createRowSpan False (mainRowKey prevRowSpan) subRowCount (spanCount prevRowSpan))
                         acc)
                 else acc)
          (Object_keys prevRowSpanMap) []"

text \<open>The object spread \<^verbatim>\<open>{ ...a, ...b }\<close>: the properties of \<open>a\<close>, then those of \<open>b\<close> in their
  order; where both have a key, the value of \<open>b\<close> wins and the key keeps its place.\<close>

definition objectSpread :: "('k \<times> 'v) list \<Rightarrow> ('k \<times> 'v) list \<Rightarrow> ('k \<times> 'v) list" where
  "objectSpread a b =
     fold (\<lambda>k acc. case map_of b k of None \<Rightarrow> acc | Some v \<Rightarrow> AList.update k v acc)
          (Object_keys b) a"

text \<open>\<^verbatim>\<open>createRowSpanMap\<close> returns \<^verbatim>\<open>{ ...mainRowSpanMap, ...subRowSpanMap }\<close>: where both maps
  have a column, the sub entry wins.\<close>

definition createRowSpanMap :: "Row \<Rightarrow> (string \<times> int) list option \<Rightarrow> Row option \<Rightarrow> RowSpanMap" where
  "createRowSpanMap row rowSpan prevRow =
     (let mainRowSpanMap =
            (if \<not> (case rowSpan of None \<Rightarrow> True | Some rs \<Rightarrow> isEmpty rs)
             then createMainRowSpanMap rowSpan (rowKey row) else []);
          subRowSpanMap =
            (case prevRow of
               None \<Rightarrow> []
             | Some p \<Rightarrow> if \<not> isEmpty (rowSpanMap p) then createSubRowSpan (rowSpanMap p) else [])
      in objectSpread mainRowSpanMap subRowSpanMap)"

text \<open>Reading \<^verbatim>\<open>row[name]\<close>: the reserved properties that hold cell values, then the cells.\<close>

definition getProp :: "Row \<Rightarrow> string \<Rightarrow> CellValue" where
  "getProp row name =
     (if name = ''rowKey'' then rowKey row
      else if name = ''sortKey'' then sortKey row
      else cells row name)"

text \<open>
  \<^verbatim>\<open>createRawRow\<close>: the row key, the sort key and the span map. The unique key, the
  attributes other than \<^verbatim>\<open>rowSpan\<close>, the default values and the observable wrapper do not
  touch those three and are left out.
\<close>

definition createRawRow :: "Row \<Rightarrow> nat \<Rightarrow> string option \<Rightarrow> Row option \<Rightarrow> Row" where
  "createRawRow row index keyColumnName prevRow =
     (let rowSpan = rowSpanAttr row;
          row1 = row\<lparr>rowKey := (if truthyStr keyColumnName then getProp row (the keyColumnName)
                                   else VNum (real index))\<rparr>;
          row2 = row1\<lparr>sortKey := (if isNumber (sortKey row1) then sortKey row1 else VNum (real index))\<rparr>
      in row2\<lparr>rowSpanMap := createRowSpanMap row2 rowSpan prevRow\<rparr>)"

text \<open>
  The callback of \<^verbatim>\<open>data.map\<close> in \<^verbatim>\<open>createData\<close>, from index \<open>index\<close> on: \<open>created\<close> is
  \<^verbatim>\<open>rows[index - 1]\<close>, the row the previous call filled in place (\<open>None\<close> at index 0).
\<close>

fun createRawRows ::
  "string option \<Rightarrow> Row list option \<Rightarrow> nat \<Rightarrow> Row option \<Rightarrow> Row list \<Rightarrow> Row list" where
  "createRawRows keyColumnName prevRows index created [] = []"
| "createRawRows keyColumnName prevRows index created (row # rows) =
     (let prevRow = (case prevRows of Some ps \<Rightarrow> js_nth ps (int index) | None \<Rightarrow> created);
          raw = createRawRow row index keyColumnName prevRow
      in raw # createRawRows keyColumnName prevRows (Suc index) (Some raw) rows)"

text \<open>
  \<^verbatim>\<open>createData\<close> for a dataset without a tree column (the tree builder is an external
  collaborator); the result is \<^verbatim>\<open>rawData\<close>. \<open>columnKeyColumnName\<close> is \<^verbatim>\<open>column.keyColumnName\<close>.
\<close>

definition createData :: "Row list \<Rightarrow> string option \<Rightarrow> bool \<Rightarrow> Row list option \<Rightarrow> Row list" where
  "createData data columnKeyColumnName lazyObservable prevRows =
     (let keyColumnName = (if lazyObservable then columnKeyColumnName else Some ''rowKey'')
      in createRawRows keyColumnName prevRows 0 None data)"

section \<open>\<^verbatim>\<open>store/data.ts\<close>: validation codes\<close>

datatype ValidationType = REQUIRED | TYPE_STRING | TYPE_NUMBER | MIN_CODE | MAX_CODE | REGEXP | VALIDATOR_FN

text \<open>
  A column's \<^verbatim>\<open>Validation\<close> options. \<open>min_bound\<close> and \<open>max_bound\<close> are the source's \<^verbatim>\<open>min\<close>
  and \<^verbatim>\<open>max\<close>; \<open>regExp\<close> is the pattern's \<^verbatim>\<open>test\<close> and \<open>validatorFn\<close> the user's predicate, both
  taken as given functions. An absent option is \<open>None\<close> (\<open>False\<close> for \<open>required\<close>).
\<close>

record Validation =
  required :: bool
  dataType :: "string option"
  min_bound :: "real option"
  max_bound :: "real option"
  regExp :: "(string \<Rightarrow> bool) option"
  validatorFn :: "(CellValue \<Rightarrow> bool) option"

text \<open>Each \<^verbatim>\<open>if (...) invalidStates.push(code)\<close> of the source appends at most one code
  (\<open>MIN_CODE\<close> and \<open>MAX_CODE\<close> are the codes \<^verbatim>\<open>MIN\<close> and \<^verbatim>\<open>MAX\<close>).\<close>

definition pushIf :: "bool \<Rightarrow> ValidationType \<Rightarrow> ValidationType list" where
  "pushIf b code = (if b then [code] else [])"

text \<open>\<^verbatim>\<open>min && isNumber(value) && value < min\<close>: the bound is read for its truthiness first, so
  a bound of 0 is skipped like an absent one.\<close>

definition belowMin :: "real option \<Rightarrow> CellValue \<Rightarrow> bool" where
  "belowMin mn v = (case mn of None \<Rightarrow> False
                    | Some m \<Rightarrow> m \<noteq> 0 \<and> (case v of VNum x \<Rightarrow> x < m | _ \<Rightarrow> False))"

definition aboveMax :: "real option \<Rightarrow> CellValue \<Rightarrow> bool" where
  "aboveMax mx v = (case mx of None \<Rightarrow> False
                    | Some m \<Rightarrow> m \<noteq> 0 \<and> (case v of VNum x \<Rightarrow> x > m | _ \<Rightarrow> False))"

definition failsRegExp :: "(string \<Rightarrow> bool) option \<Rightarrow> CellValue \<Rightarrow> bool" where
  "failsRegExp re v = (case re of None \<Rightarrow> False
                       | Some test \<Rightarrow> (case v of VStr s \<Rightarrow> \<not> test s | _ \<Rightarrow> False))"

definition failsValidatorFn :: "(CellValue \<Rightarrow> bool) option \<Rightarrow> CellValue \<Rightarrow> bool" where
  "failsValidatorFn fn v = (case fn of None \<Rightarrow> False | Some f \<Rightarrow> \<not> f v)"

definition getValidationCode :: "CellValue \<Rightarrow> Validation option \<Rightarrow> ValidationType list" where
  "getValidationCode v validation =
     (case validation of
        None \<Rightarrow> []
      | Some vd \<Rightarrow>
          pushIf (required vd \<and> isBlank v) REQUIRED
          @ pushIf (dataType vd = Some ''string'' \<and> \<not> isString v) TYPE_STRING
          @ pushIf (dataType vd = Some ''number'' \<and> \<not> isNumber v) TYPE_NUMBER
          @ pushIf (belowMin (min_bound vd) v) MIN_CODE
          @ pushIf (aboveMax (max_bound vd) v) MAX_CODE
          @ pushIf (failsRegExp (regExp vd) v) REGEXP
          @ pushIf (failsValidatorFn (validatorFn vd) v) VALIDATOR_FN)"

section \<open>\<^verbatim>\<open>dispatch/focus.ts\<close>: changing the focus\<close>

text \<open>The focus store; \<open>focusRowKey\<close> and \<open>focusColumnName\<close> are its \<^verbatim>\<open>rowKey\<close> and
  \<^verbatim>\<open>columnName\<close> (\<^const>\<open>VNull\<close> and \<open>None\<close> are \<^verbatim>\<open>null\<close>).\<close>

record Focus =
  focusRowKey :: RowKey
  focusColumnName :: "string option"
  prevRowKey :: RowKey
  prevColumnName :: "string option"

text \<open>The payload of the \<^verbatim>\<open>focusChange\<close> event.\<close>

record GridEvent =
  evRowKey :: RowKey
  evColumnName :: "string option"
  evPrevColumnName :: "string option"
  evPrevRowKey :: RowKey

text \<open>
  Modelled from the spec: \<^verbatim>\<open>query/focus.ts\<close> is not among the sources. \<^verbatim>\<open>changeFocus\<close> is a
  no-op if the target is already focused: both the row key and the column name are those
  of the focus.
\<close>

definition isFocusedCell :: "Focus \<Rightarrow> RowKey \<Rightarrow> string option \<Rightarrow> bool" where
  "isFocusedCell fc key colName = (key = focusRowKey fc \<and> colName = focusColumnName fc)"

text \<open>The row the focus lands on: \<^verbatim>\<open>focusRowKey\<close> of the source, lines 120 to 127.\<close>

definition resolveFocusRowKey :: "Row list \<Rightarrow> SortState \<Rightarrow> RowKey \<Rightarrow> string option \<Rightarrow> error + RowKey" where
  "resolveFocusRowKey rawData st key colName =
     (if truthy key \<and> truthyStr colName then
        (case isRowSpanEnabled st of
           Inl e \<Rightarrow> Inl e
         | Inr enabled \<Rightarrow>
             if enabled then
               (case getRowSpanByRowKey key (the colName) rawData of
                  Inl e \<Rightarrow> Inl e
                | Inr None \<Rightarrow> Inr key
                | Inr (Some rowSpan) \<Rightarrow> Inr (memberMainRowKey rowSpan))
             else Inr key)
      else Inr key)"

text \<open>
  \<^verbatim>\<open>changeFocus\<close>. \<open>isHiddenColumn\<close> stands for \<^verbatim>\<open>isHiddenColumn(column, _)\<close> of
  \<^verbatim>\<open>helper/column\<close> and \<open>isStopped\<close> for what the event bus's listeners decide about the event
  (\<^verbatim>\<open>gridEvent.isStopped()\<close> after \<^verbatim>\<open>trigger\<close>); both are external collaborators. The result
  is the focus store after the call; the four assignments are applied in the source's order.
\<close>

definition changeFocus ::
  "(string \<Rightarrow> bool) \<Rightarrow> (GridEvent \<Rightarrow> bool) \<Rightarrow> Row list \<Rightarrow> SortState \<Rightarrow> Focus
     \<Rightarrow> RowKey \<Rightarrow> string option \<Rightarrow> error + Focus" where
  "changeFocus isHiddenColumn isStopped rawData st fc key colName =
     (if isFocusedCell fc key colName \<or> (truthyStr colName \<and> isHiddenColumn (the colName))
      then Inr fc
      else
        (let gridEvent = \<lparr>evRowKey = key, evColumnName = colName,
                          evPrevColumnName = focusColumnName fc, evPrevRowKey = focusRowKey fc\<rparr>
         in if isStopped gridEvent then Inr fc
            else
              (case resolveFocusRowKey rawData st key colName of
                 Inl e \<Rightarrow> Inl e
               | Inr target \<Rightarrow>
                   (let f1 = fc\<lparr>prevColumnName := focusColumnName fc\<rparr>;
                        f2 = f1\<lparr>prevRowKey := focusRowKey f1\<rparr>;
                        f3 = f2\<lparr>focusColumnName := colName\<rparr>
                    in Inr (f3\<lparr>focusRowKey := target\<rparr>)))))"

section \<open>\<^verbatim>\<open>helper/rowSpan.ts\<close>: range queries\<close>

text \<open>
  One turn of the \<^verbatim>\<open>for\<close> loop of \<^verbatim>\<open>getRowSpanRange\<close>: \<open>expandStart\<close> is the first \<^verbatim>\<open>if\<close> of
  its body (the top row of the span at the start row), \<open>expandEnd\<close> the second (the bottom
  row of the span at the end row), and \<open>rowSpanRangeStep\<close> the body. Reading \<^verbatim>\<open>rowSpanMap\<close> of
  a row outside \<^verbatim>\<open>rawData\<close> or \<^verbatim>\<open>name\<close> of a column outside \<^verbatim>\<open>visibleColumns\<close> raises. Both
  tests read the span map by the column's name (\<open>readMember\<close>); for an inherited member
  \<^verbatim>\<open>mainRowKey\<close> is \<^verbatim>\<open>undefined\<close>, and so is \<^verbatim>\<open>spanCount\<close>, which makes the bottom index \<^verbatim>\<open>NaN\<close>
  and the comparison with it false.
\<close>

definition expandStart :: "Row list \<Rightarrow> RowSpanMap \<Rightarrow> string \<Rightarrow> int \<Rightarrow> int" where
  "expandStart rawData startRowSpanMap colName startRowIndex =
     (case readMember startRowSpanMap colName of
        None \<Rightarrow> startRowIndex
      | Some member \<Rightarrow>
          (let topRowSpanIndex = findPropIndex (memberMainRowKey member) rawData
           in if startRowIndex > topRowSpanIndex then topRowSpanIndex else startRowIndex))"

definition expandEnd :: "Row list \<Rightarrow> RowSpanMap \<Rightarrow> string \<Rightarrow> int \<Rightarrow> int" where
  "expandEnd rawData endRowSpanMap colName endRowIndex =
     (case readMember endRowSpanMap colName of
        None \<Rightarrow> endRowIndex
      | Some (Inherited name) \<Rightarrow> endRowIndex
      | Some (Own rs) \<Rightarrow>
          (let bottomRowSpanIndex = findPropIndex (mainRowKey rs) rawData + spanCount rs - 1
           in if endRowIndex < bottomRowSpanIndex then bottomRowSpanIndex else endRowIndex))"

definition rowSpanRangeStep ::
  "string list \<Rightarrow> Row list \<Rightarrow> int \<Rightarrow> int \<times> int \<Rightarrow> error + (int \<times> int)" where
  "rowSpanRangeStep visibleColumns rawData index rowRange =
     (case js_nth rawData (fst rowRange) of
        None \<Rightarrow> Inl TypeError
      | Some startRow \<Rightarrow>
          (case js_nth rawData (snd rowRange) of
             None \<Rightarrow> Inl TypeError
           | Some endRow \<Rightarrow>
               (case js_nth visibleColumns index of
                  None \<Rightarrow> Inl TypeError
                | Some colName \<Rightarrow>
                    Inr (expandStart rawData (rowSpanMap startRow) colName (fst rowRange),
                         expandEnd rawData (rowSpanMap endRow) colName (snd rowRange)))))"

function rowSpanRangeLoop ::
  "string list \<Rightarrow> Row list \<Rightarrow> int \<Rightarrow> int \<Rightarrow> int \<times> int \<Rightarrow> error + (int \<times> int)" where
  "rowSpanRangeLoop visibleColumns rawData index endColumnIndex rowRange =
     (if index \<le> endColumnIndex then
        (case rowSpanRangeStep visibleColumns rawData index rowRange of
           Inl e \<Rightarrow> Inl e
         | Inr rowRange' \<Rightarrow> rowSpanRangeLoop visibleColumns rawData (index + 1) endColumnIndex rowRange')
      else Inr rowRange)"
  by pat_completeness auto
termination
  by (relation "measure (\<lambda>(cols, raw, i, e, r). nat (e + 1 - i))") auto

declare rowSpanRangeLoop.simps [simp del]

lemma rowSpanRangeStep_mono:
  "rowSpanRangeStep cols raw i r = Inr r' \<Longrightarrow> fst r' \<le> fst r \<and> snd r \<le> snd r'"
  by (auto simp: rowSpanRangeStep_def expandStart_def expandEnd_def Let_def
      split: option.splits SpanMember.splits)

lemma rowSpanRangeStep_bounds:
  "rowSpanRangeStep cols raw i r = Inr r' \<Longrightarrow> 0 \<le> fst r \<and> snd r < int (length raw)"
  by (auto simp: rowSpanRangeStep_def js_nth_def split: option.splits if_splits)

lemma rowSpanRangeLoop_mono:
  "rowSpanRangeLoop cols raw i e r = Inr r' \<Longrightarrow> fst r' \<le> fst r \<and> snd r \<le> snd r'"
proof (induction cols raw i e r rule: rowSpanRangeLoop.induct)
  case (1 cols raw i e r)
  show ?case
  proof (cases "i \<le> e")
    case False
    with "1.prems" show ?thesis by (simp add: rowSpanRangeLoop.simps)
  next
    case True
    with "1.prems" obtain r1 where
      st: "rowSpanRangeStep cols raw i r = Inr r1" and
      rec: "rowSpanRangeLoop cols raw (i + 1) e r1 = Inr r'"
      by (subst (asm) rowSpanRangeLoop.simps) (auto split: sum.splits)
    from "1.IH"[OF True st rec] rowSpanRangeStep_mono[OF st] show ?thesis by linarith
  qed
qed

lemma rowSpanRangeLoop_bounds:
  "rowSpanRangeLoop cols raw i e r = Inr r' \<Longrightarrow> r' \<noteq> r \<Longrightarrow> 0 \<le> fst r \<and> snd r < int (length raw)"
  by (subst (asm) rowSpanRangeLoop.simps) (auto split: if_splits sum.splits dest: rowSpanRangeStep_bounds)

function getRowSpanRange ::
  "int \<times> int \<Rightarrow> int \<times> int \<Rightarrow> string list \<Rightarrow> Row list \<Rightarrow> error + (int \<times> int)" where
  "getRowSpanRange rowRange colRange visibleColumns rawData =
     (case rowSpanRangeLoop visibleColumns rawData (fst colRange) (snd colRange) rowRange of
        Inl e \<Rightarrow> Inl e
      | Inr rowRange' \<Rightarrow>
          if fst rowRange' \<noteq> fst rowRange \<or> snd rowRange' \<noteq> snd rowRange
          then getRowSpanRange rowRange' colRange visibleColumns rawData
          else Inr rowRange')"
  by pat_completeness auto
termination
proof (relation "measure (\<lambda>(rowRange, colRange, cols, raw).
          if 0 \<le> fst rowRange \<and> snd rowRange < int (length raw)
          then nat (fst rowRange + int (length raw) - snd rowRange) + 1 else 0)", goal_cases)
  case 1
  show ?case by simp
next
  case (2 rowRange colRange visibleColumns rawData r')
  from rowSpanRangeLoop_mono[OF 2(1)] have m: "fst r' \<le> fst rowRange" "snd rowRange \<le> snd r'"
    by auto
  from 2(2) have "r' \<noteq> rowRange" by auto
  from rowSpanRangeLoop_bounds[OF 2(1) this]
  have b: "0 \<le> fst rowRange" "snd rowRange < int (length rawData)" by auto
  from 2(2) m have "fst r' < fst rowRange \<or> snd rowRange < snd r'" by auto
  with m b show ?case by auto
qed

declare getRowSpanRange.simps [simp del]

definition getMaxRowSpanRange ::
  "int \<times> int \<Rightarrow> int \<times> int \<Rightarrow> string list \<Rightarrow> int option \<Rightarrow> Row list \<Rightarrow> error + (int \<times> int)" where
  "getMaxRowSpanRange rowRange colRange visibleColumns focusRowIndex rawData =
     (let sortedColRange = getSortedRange colRange;
          endRowIndex = snd rowRange;
          startRowIndex =
            (case focusRowIndex of
               None \<Rightarrow> fst rowRange
             | Some f \<Rightarrow> if fst rowRange \<noteq> f then f else fst rowRange);
          sortedRowRange = getSortedRange (startRowIndex, endRowIndex)
      in case getRowSpanRange sortedRowRange sortedColRange visibleColumns rawData of
           Inl e \<Rightarrow> Inl e
         | Inr (startRowSpanIndex, endRowSpanIndex) \<Rightarrow>
             Inr (if startRowIndex > endRowIndex
                  then (endRowSpanIndex, startRowSpanIndex)
                  else (startRowSpanIndex, endRowSpanIndex)))"

definition getRowRangeWithRowSpan ::
  "int \<times> int \<Rightarrow> int \<times> int \<Rightarrow> string list \<Rightarrow> int option \<Rightarrow> Row list \<Rightarrow> SortState
     \<Rightarrow> error + (int \<times> int)" where
  "getRowRangeWithRowSpan rowRange colRange visibleColumnsWithRowHeader rowIndex rawData st =
     (case isRowSpanEnabled st of
        Inl e \<Rightarrow> Inl e
      | Inr enabled \<Rightarrow>
          if enabled
          then getMaxRowSpanRange rowRange colRange visibleColumnsWithRowHeader rowIndex rawData
          else Inr rowRange)"

section \<open>\<^verbatim>\<open>helper/rowSpan.ts\<close>: re-linking spans when a row is appended or removed\<close>

text \<open>
  \<^verbatim>\<open>updateRowSpanWhenAppend\<close> and \<^verbatim>\<open>updateRowSpanWhenRemove\<close> mutate row objects that the
  caller reaches both through \<^verbatim>\<open>data\<close> and through \<^verbatim>\<open>prevRow\<close>, \<^verbatim>\<open>removedRow\<close> and \<^verbatim>\<open>nextRow\<close>.
  Row objects therefore live in a store: a \<open>heap\<close> maps the address of a row object to its
  current contents, \<^verbatim>\<open>data\<close> is a list of addresses and a row argument is an address. Each
  row owns its span map and the entries in it (\<^verbatim>\<open>createRowSpanMap\<close> and \<^verbatim>\<open>createRowSpan\<close>
  return fresh objects), so an assignment to a field of an entry is a write to the map of
  the row that holds it. A function returns the store after the call, or the exception.
\<close>

type_synonym heap = "nat \<Rightarrow> Row"

text \<open>\<^verbatim>\<open>findProp('rowKey', v, data)\<close>: the first row object of \<^verbatim>\<open>data\<close> with that key, if any.\<close>

definition findProp :: "RowKey \<Rightarrow> heap \<Rightarrow> nat list \<Rightarrow> nat option" where
  "findProp v h data = js_nth data (findPropIndex v (map h data))"

text \<open>\<^verbatim>\<open>row.rowSpanMap[columnName] = rs\<close> and \<^verbatim>\<open>delete row.rowSpanMap[columnName]\<close>.\<close>

definition setRowSpan :: "heap \<Rightarrow> nat \<Rightarrow> string \<Rightarrow> RowSpan \<Rightarrow> heap" where
  "setRowSpan h a colName rs = h(a := (h a)\<lparr>rowSpanMap := AList.update colName rs (rowSpanMap (h a))\<rparr>)"

definition deleteRowSpan :: "heap \<Rightarrow> nat \<Rightarrow> string \<Rightarrow> heap" where
  "deleteRowSpan h a colName = h(a := (h a)\<lparr>rowSpanMap := AList.delete colName (rowSpanMap (h a))\<rparr>)"

text \<open>The \<^verbatim>\<open>for\<close> loop of \<^verbatim>\<open>updateSubRowSpan\<close>, from \<open>offset\<close> on.\<close>

function updateSubRowSpanLoop ::
  "nat list \<Rightarrow> nat \<Rightarrow> string \<Rightarrow> int \<Rightarrow> int \<Rightarrow> int \<Rightarrow> heap \<Rightarrow> error + heap" where
  "updateSubRowSpanLoop data mainRowA colName mainRowIndex offset sc h =
     (if offset < sc then
        (case js_nth data (mainRowIndex + offset) of
           None \<Rightarrow> Inl TypeError
         | Some row \<Rightarrow>
             updateSubRowSpanLoop data mainRowA colName mainRowIndex (offset + 1) sc
               (setRowSpan h row colName (createRowSpan False (rowKey (h mainRowA)) (- offset) sc)))
      else Inr h)"
  by pat_completeness auto
termination
  by (relation "measure (\<lambda>(data, m, c, i, offset, sc, h). nat (sc - offset))") auto

declare updateSubRowSpanLoop.simps [simp del]

definition updateSubRowSpan :: "heap \<Rightarrow> nat list \<Rightarrow> nat \<Rightarrow> string \<Rightarrow> int \<Rightarrow> int \<Rightarrow> error + heap" where
  "updateSubRowSpan h data mainRowA colName startOffset sc =
     (let mainRowIndex = findPropIndex (rowKey (h mainRowA)) (map h data)
      in updateSubRowSpanLoop data mainRowA colName mainRowIndex startOffset sc h)"

text \<open>\<^verbatim>\<open>keys.forEach(callback)\<close> over a store; an exception ends the loop.\<close>

fun forEachE :: "('s \<Rightarrow> 'k \<Rightarrow> error + 's) \<Rightarrow> 'k list \<Rightarrow> 's \<Rightarrow> error + 's" where
  "forEachE f [] s = Inr s"
| "forEachE f (k # ks) s = (case f s k of Inl e \<Rightarrow> Inl e | Inr s' \<Rightarrow> forEachE f ks s')"

text \<open>
  The callback of \<^verbatim>\<open>updateRowSpanWhenAppend\<close> for one column is \<open>appendColumn\<close>. \<open>spanEntry\<close> reads
  \<^verbatim>\<open>row.rowSpanMap[columnName]\<close> for a key of a span map (the callbacks get their column names
  from \<^verbatim>\<open>Object.keys\<close> of a span map): the own entry or \<^verbatim>\<open>undefined\<close>. \<open>spanMainRow\<close> is
  \<^verbatim>\<open>keyRow ? prevRow : findProp('rowKey', mainRowKey, data)\<close> and \<open>appendStartOffset\<close> is
  \<^verbatim>\<open>keyRow || extendPrevRowSpan ? 1 : -count + 1\<close>.
\<close>

definition spanEntry :: "heap \<Rightarrow> nat \<Rightarrow> string \<Rightarrow> RowSpan option" where
  "spanEntry h a colName = map_of (rowSpanMap (h a)) colName"

definition spanMainRow :: "heap \<Rightarrow> nat list \<Rightarrow> nat \<Rightarrow> RowSpan \<Rightarrow> nat option" where
  "spanMainRow h data row rowSpan =
     (if mainRow rowSpan then Some row else findProp (mainRowKey rowSpan) h data)"

definition appendStartOffset :: "RowSpan \<Rightarrow> bool \<Rightarrow> int" where
  "appendStartOffset prevRowSpan extendPrevRowSpan =
     (if mainRow prevRowSpan \<or> extendPrevRowSpan then 1 else - count prevRowSpan + 1)"

definition appendColumn :: "nat list \<Rightarrow> nat \<Rightarrow> bool \<Rightarrow> heap \<Rightarrow> string \<Rightarrow> error + heap" where
  "appendColumn data prevRow extendPrevRowSpan h colName =
     (case spanEntry h prevRow colName of
        None \<Rightarrow> Inr h
      | Some prevRowSpan \<Rightarrow>
          (case spanMainRow h data prevRow prevRowSpan of
             None \<Rightarrow> Inl TypeError
           | Some mainRowA \<Rightarrow>
               (case spanEntry h mainRowA colName of
                  None \<Rightarrow> Inl TypeError
                | Some mainRowSpan \<Rightarrow>
                    if spanCount mainRowSpan > appendStartOffset prevRowSpan extendPrevRowSpan then
                      (let grown = mainRowSpan\<lparr>count := count mainRowSpan + 1,
                                                spanCount := spanCount mainRowSpan + 1\<rparr>
                       in updateSubRowSpan (setRowSpan h mainRowA colName grown) data mainRowA colName
                            1 (spanCount grown))
                    else Inr h)))"

definition updateRowSpanWhenAppend :: "heap \<Rightarrow> nat list \<Rightarrow> nat \<Rightarrow> bool \<Rightarrow> error + heap" where
  "updateRowSpanWhenAppend h data prevRow extendPrevRowSpan =
     (let prevRowSpanMap = rowSpanMap (h prevRow)
      in if isEmpty prevRowSpanMap then Inr h
         else forEachE (appendColumn data prevRow extendPrevRowSpan) (Object_keys prevRowSpanMap) h)"

text \<open>
  The callback of \<^verbatim>\<open>updateRowSpanWhenRemove\<close> for one column is \<open>removeColumn\<close>. Its parts:
  \<open>promote\<close> is the first \<^verbatim>\<open>if (spanCount > 1)\<close> (lines 252 to 256), \<open>copyCell\<close> is
  \<^verbatim>\<open>mainRow[columnName] = removedRow[columnName]\<close>, and \<open>relinkOrDelete\<close> is the final
  \<^verbatim>\<open>if (spanCount > 1) ... else delete ...\<close> (lines 265 to 272). Column names are taken not
  to collide with the reserved properties of a row, so the copy writes a cell.
\<close>

definition relinkOrDelete :: "nat list \<Rightarrow> heap \<Rightarrow> nat \<Rightarrow> string \<Rightarrow> int \<Rightarrow> error + heap" where
  "relinkOrDelete data h mainRowA colName sc =
     (if sc > 1 then
        (case spanEntry h mainRowA colName of
           None \<Rightarrow> Inl TypeError
         | Some mainRowSpan \<Rightarrow>
             updateSubRowSpan (setRowSpan h mainRowA colName (mainRowSpan\<lparr>count := sc, spanCount := sc\<rparr>))
               data mainRowA colName 1 sc)
      else Inr (deleteRowSpan h mainRowA colName))"

definition promote :: "heap \<Rightarrow> nat \<Rightarrow> string \<Rightarrow> int \<Rightarrow> error + heap" where
  "promote h mainRowA colName sc =
     (if sc > 1 then
        (case spanEntry h mainRowA colName of
           None \<Rightarrow> Inl TypeError
         | Some mainRowSpan \<Rightarrow>
             Inr (setRowSpan h mainRowA colName
                    (mainRowSpan\<lparr>mainRowKey := rowKey (h mainRowA), mainRow := True\<rparr>)))
      else Inr h)"

definition copyCell :: "heap \<Rightarrow> nat \<Rightarrow> nat \<Rightarrow> string \<Rightarrow> heap" where
  "copyCell h target source colName =
     h(target := (h target)\<lparr>cells := (cells (h target))(colName := cells (h source) colName)\<rparr>)"

definition removeColumn :: "nat list \<Rightarrow> nat \<Rightarrow> nat \<Rightarrow> bool \<Rightarrow> heap \<Rightarrow> string \<Rightarrow> error + heap" where
  "removeColumn data removedRow nextRow keepRowSpanData h colName =
     (case spanEntry h removedRow colName of
        None \<Rightarrow> Inl TypeError
      | Some removedRowSpan \<Rightarrow>
          if mainRow removedRowSpan then
            (let sc = count removedRowSpan - 1 in
             case promote h nextRow colName sc of
               Inl e \<Rightarrow> Inl e
             | Inr h1 \<Rightarrow>
                 relinkOrDelete data
                   (if keepRowSpanData then copyCell h1 nextRow removedRow colName else h1)
                   nextRow colName sc)
          else
            (case findProp (mainRowKey removedRowSpan) h data of
               None \<Rightarrow> Inl TypeError
             | Some mainRowA \<Rightarrow>
                 (case spanEntry h mainRowA colName of
                    None \<Rightarrow> Inl TypeError
                  | Some mainRowSpan \<Rightarrow>
                      relinkOrDelete data h mainRowA colName (spanCount mainRowSpan - 1))))"

definition updateRowSpanWhenRemove :: "heap \<Rightarrow> nat list \<Rightarrow> nat \<Rightarrow> nat \<Rightarrow> bool \<Rightarrow> error + heap" where
  "updateRowSpanWhenRemove h data removedRow nextRow keepRowSpanData =
     (let removedRowSpanMap = rowSpanMap (h removedRow)
      in if isEmpty removedRowSpanMap then Inr h
         else forEachE (removeColumn data removedRow nextRow keepRowSpanData)
                (Object_keys removedRowSpanMap) h)"

section \<open>Predicates used to state the properties\<close>

subsection \<open>Entries of a forward pass\<close>

text \<open>The entry \<^verbatim>\<open>createSubRowSpan\<close> derives from one entry of the previous row, if any.\<close>

definition subEntry :: "RowSpan \<Rightarrow> RowSpan option" where
  "subEntry prevRowSpan =
     (if spanCount prevRowSpan > 1 - count prevRowSpan
      then Some (createRowSpan False (mainRowKey prevRowSpan)
                   (if count prevRowSpan \<ge> 0 then - 1 else count prevRowSpan - 1)
                   (spanCount prevRowSpan))
      else None)"

text \<open>The entry a row gets for a column: the one inherited from the previous row if there is
  one, else the one the row declares.\<close>

definition mainEntry :: "RowKey \<Rightarrow> (string \<times> int) list option \<Rightarrow> string \<Rightarrow> RowSpan option" where
  "mainEntry key rowSpan c =
     (case rowSpan of
        None \<Rightarrow> None
      | Some rs \<Rightarrow> (case map_of rs c of None \<Rightarrow> None | Some sc \<Rightarrow> Some (createRowSpan True key sc sc)))"

definition inheritedEntry :: "Row option \<Rightarrow> string \<Rightarrow> RowSpan option" where
  "inheritedEntry prevRow c =
     (case prevRow of
        None \<Rightarrow> None
      | Some p \<Rightarrow> (case map_of (rowSpanMap p) c of None \<Rightarrow> None | Some e \<Rightarrow> subEntry e))"

text \<open>What holds of every entry a forward pass leaves at row \<open>i\<close> for column \<open>c\<close>: it is
  linked to a main entry at some row \<open>m\<close> not after \<open>i\<close>.\<close>

definition entryLinked :: "Row list \<Rightarrow> string \<Rightarrow> nat \<Rightarrow> RowSpan \<Rightarrow> bool" where
  "entryLinked rows c i e =
     (\<exists>m \<le> i. map_of (rowSpanMap (rows ! m)) c
                 = Some (createRowSpan True (rowKey (rows ! m)) (spanCount e) (spanCount e))
        \<and> mainRowKey e = rowKey (rows ! m)
        \<and> (m < i \<longrightarrow> \<not> mainRow e \<and> count e = - int (i - m)
                     \<and> (i - m = 1 \<or> int (i - m) < spanCount e)))"

subsection \<open>Spans in a dataset and in a store\<close>

text \<open>A span of \<open>k\<close> rows on column \<open>c\<close> headed by the row at index \<open>m\<close>.\<close>

definition spanAt :: "Row list \<Rightarrow> string \<Rightarrow> nat \<Rightarrow> int \<Rightarrow> bool" where
  "spanAt rawData c m k =
     (1 \<le> k \<and> int m + k \<le> int (length rawData)
      \<and> findPropIndex (rowKey (rawData ! m)) rawData = int m
      \<and> (\<forall>i. m \<le> i \<and> int i < int m + k \<longrightarrow>
             (\<exists>e. map_of (rowSpanMap (rawData ! i)) c = Some e
                  \<and> mainRowKey e = rowKey (rawData ! m) \<and> spanCount e = k)))"

text \<open>What one column's callback may read and change of a store, seen from column \<open>c\<close>: the
  row keys, the entries for \<open>c\<close> and the cells of \<open>c\<close>.\<close>

definition sameColumn :: "string \<Rightarrow> heap \<Rightarrow> heap \<Rightarrow> bool" where
  "sameColumn c h h' =
     (\<forall>a. rowKey (h' a) = rowKey (h a) \<and> spanEntry h' a c = spanEntry h a c
          \<and> cells (h' a) c = cells (h a) c)"

text \<open>The span of column \<open>c\<close> after \<^verbatim>\<open>updateRowSpanWhenAppend\<close>, in terms of the store before the
  call: unchanged, or grown by one row and re-linked.\<close>

definition grownSpan :: "heap \<Rightarrow> heap \<Rightarrow> nat list \<Rightarrow> string \<Rightarrow> nat \<Rightarrow> RowSpan \<Rightarrow> bool" where
  "grownSpan h h' data c mainRowA mainRowSpan =
     (spanEntry h' mainRowA c
        = Some (mainRowSpan\<lparr>count := count mainRowSpan + 1, spanCount := spanCount mainRowSpan + 1\<rparr>)
      \<and> (\<forall>ofs. 1 \<le> ofs \<and> ofs < spanCount mainRowSpan + 1 \<longrightarrow>
            (\<exists>a. js_nth data (findPropIndex (rowKey (h mainRowA)) (map h data) + ofs) = Some a
                \<and> spanEntry h' a c
                    = Some (createRowSpan False (rowKey (h mainRowA)) (- ofs) (spanCount mainRowSpan + 1))))
      \<and> (\<forall>a. a \<noteq> mainRowA
              \<and> (\<forall>ofs. 1 \<le> ofs \<and> ofs < spanCount mainRowSpan + 1 \<longrightarrow>
                    js_nth data (findPropIndex (rowKey (h mainRowA)) (map h data) + ofs) \<noteq> Some a)
              \<longrightarrow> spanEntry h' a c = spanEntry h a c))"

text \<open>The span of column \<open>c\<close> after its main row was removed and \<open>nextRow\<close> promoted: \<open>sc\<close> rows
  headed by \<open>nextRow\<close>.\<close>

definition promotedSpan :: "heap \<Rightarrow> heap \<Rightarrow> nat list \<Rightarrow> string \<Rightarrow> nat \<Rightarrow> int \<Rightarrow> bool" where
  "promotedSpan h h' data c nextRow sc =
     (spanEntry h' nextRow c = Some (createRowSpan True (rowKey (h nextRow)) sc sc)
      \<and> (\<forall>ofs. 1 \<le> ofs \<and> ofs < sc \<longrightarrow>
            (\<exists>a. js_nth data (findPropIndex (rowKey (h nextRow)) (map h data) + ofs) = Some a
                \<and> spanEntry h' a c = Some (createRowSpan False (rowKey (h nextRow)) (- ofs) sc)))
      \<and> (\<forall>a. a \<noteq> nextRow
              \<and> (\<forall>ofs. 1 \<le> ofs \<and> ofs < sc \<longrightarrow>
                    js_nth data (findPropIndex (rowKey (h nextRow)) (map h data) + ofs) \<noteq> Some a)
              \<longrightarrow> spanEntry h' a c = spanEntry h a c))"

subsection \<open>When the re-linking calls return normally\<close>

text \<open>The rows at the offsets 1 to \<open>sc - 1\<close> after index \<open>mi\<close> exist in \<open>data\<close>.\<close>

definition rowsFollow :: "nat list \<Rightarrow> int \<Rightarrow> int \<Rightarrow> bool" where
  "rowsFollow data mi sc = (sc \<le> 1 \<or> (0 \<le> mi + 1 \<and> mi + sc \<le> int (length data)))"

text \<open>What \<open>appendColumn\<close> needs of column \<open>d\<close> to return normally: the span's main row
  (\<open>prevRow\<close> itself if its entry is the main entry, else the first row of \<open>data\<close> with the
  entry's \<^verbatim>\<open>mainRowKey\<close>) is found and has an entry and, when the span grows (its span count
  is greater than the start offset: 1 if \<open>prevRow\<close> is the main row or the span is extended,
  else \<^verbatim>\<open>-count + 1\<close>), the rows the loop re-links exist.\<close>

definition appendable :: "heap \<Rightarrow> nat list \<Rightarrow> nat \<Rightarrow> bool \<Rightarrow> string \<Rightarrow> bool" where
  "appendable h data prevRow extendPrevRowSpan d =
     (case spanEntry h prevRow d of
        None \<Rightarrow> True
      | Some prevRowSpan \<Rightarrow>
          (case (if mainRow prevRowSpan then Some prevRow
                 else findProp (mainRowKey prevRowSpan) h data) of
             None \<Rightarrow> False
           | Some mainRowA \<Rightarrow>
               (case spanEntry h mainRowA d of
                  None \<Rightarrow> False
                | Some mainRowSpan \<Rightarrow>
                    spanCount mainRowSpan
                      \<le> (if mainRow prevRowSpan \<or> extendPrevRowSpan then 1 else - count prevRowSpan + 1)
                    \<or> rowsFollow data (findPropIndex (rowKey (h mainRowA)) (map h data))
                         (spanCount mainRowSpan + 1))))"

text \<open>What \<open>removeColumn\<close> needs of column \<open>d\<close> to return normally.\<close>

definition removable :: "heap \<Rightarrow> nat list \<Rightarrow> nat \<Rightarrow> nat \<Rightarrow> string \<Rightarrow> bool" where
  "removable h data removedRow nextRow d =
     (case spanEntry h removedRow d of
        None \<Rightarrow> False
      | Some removedRowSpan \<Rightarrow>
          if mainRow removedRowSpan then
            count removedRowSpan - 1 \<le> 1
            \<or> (spanEntry h nextRow d \<noteq> None
                \<and> rowsFollow data (findPropIndex (rowKey (h nextRow)) (map h data))
                     (count removedRowSpan - 1))
          else
            (case findProp (mainRowKey removedRowSpan) h data of
               None \<Rightarrow> False
             | Some mainRowA \<Rightarrow>
                 (case spanEntry h mainRowA d of
                    None \<Rightarrow> False
                  | Some mainRowSpan \<Rightarrow>
                      rowsFollow data (findPropIndex (rowKey (h mainRowA)) (map h data))
                        (spanCount mainRowSpan - 1))))"

section \<open>Example data\<close>

text \<open>
  Input rows as a caller hands them to \<^verbatim>\<open>createData\<close>: a key column \<^verbatim>\<open>id\<close> and, optionally,
  declared spans. The dataset used below has the rows with ids 1 and 0, the first declaring
  a span of two rows on the column \<^verbatim>\<open>region\<close>; it is built with \<^verbatim>\<open>id\<close> as the key column.
\<close>

definition optRow :: "real \<Rightarrow> (string \<times> int) list option \<Rightarrow> Row" where
  "optRow ident rowSpan =
     \<lparr>rowKey = VUndefined, sortKey = VUndefined, rowSpanAttr = rowSpan, rowSpanMap = [],
      cells = (\<lambda>name. if name = ''id'' then VNum ident else VUndefined)\<rparr>"

definition naturalOrder :: SortState where
  "naturalOrder = \<lparr>useClient = False, columns = [\<lparr>columnName = ''sortKey'', ascending = True\<rparr>]\<rparr>"

definition sortedByName :: SortState where
  "sortedByName = \<lparr>useClient = False, columns = [\<lparr>columnName = ''name'', ascending = True\<rparr>]\<rparr>"

definition noFocus :: Focus where
  "noFocus = \<lparr>focusRowKey = VNull, focusColumnName = None, prevRowKey = VNull, prevColumnName = None\<rparr>"

text \<open>Two datasets: one span of three rows, and a span declared inside an earlier one.\<close>

definition regionRows :: "Row list" where
  "regionRows = [optRow 1 (Some [(''region'', 3)]), optRow 2 None, optRow 3 None]"

definition overlapRows :: "Row list" where
  "overlapRows = [optRow 1 (Some [(''region'', 3)]), optRow 2 (Some [(''region'', 2)]),
                  optRow 3 None, optRow 4 None]"

text \<open>A dataset with two spanned columns: \<^verbatim>\<open>name\<close> spans all four rows, \<^verbatim>\<open>region\<close> the second and
  the third.\<close>

definition twoColumnRows :: "Row list" where
  "twoColumnRows = [optRow 1 (Some [(''name'', 4)]), optRow 2 (Some [(''region'', 2)]),
                    optRow 3 None, optRow 4 None]"

text \<open>
  A store for the examples: the rows of a list at the addresses 0, 1, 2 and so on.
  \<open>appendHeap\<close> holds the three rows of the \<^verbatim>\<open>region\<close> span at the addresses 0 to 2 and a new
  row without spans at address 3; the caller has spliced the new row in after the second
  row, so \<^verbatim>\<open>data\<close> is \<open>[0, 1, 3, 2]\<close> and \<^verbatim>\<open>prevRow\<close> is the row at address 1.
\<close>

definition heapOf :: "Row list \<Rightarrow> heap" where
  "heapOf rows a = (if a < length rows then rows ! a else optRow 0 None)"

definition appendHeap :: heap where
  "appendHeap = heapOf (createData regionRows (Some ''id'') True None
                         @ [createRawRow (optRow 4 None) 3 (Some ''id'') None])"

text \<open>
  Stores for the examples, with a \<^verbatim>\<open>region\<close> cell in every row. \<open>removeHeap\<close> holds a span of
  three rows; the caller has removed the main row (address 0), so \<^verbatim>\<open>data\<close> is \<open>[1, 2]\<close> and
  \<^verbatim>\<open>nextRow\<close> is the row at address 1. \<open>pairHeap\<close> holds a span of two rows, \<^verbatim>\<open>data\<close> is \<open>[1]\<close>.
\<close>

definition regionRow :: "real \<Rightarrow> (string \<times> int) list option \<Rightarrow> string \<Rightarrow> Row" where
  "regionRow ident rowSpan region =
     (optRow ident rowSpan)\<lparr>cells := (cells (optRow ident rowSpan))(''region'' := VStr region)\<rparr>"

definition removeHeap :: heap where
  "removeHeap = heapOf (createData [regionRow 1 (Some [(''region'', 3)]) ''north'',
                                    regionRow 2 None ''south'', regionRow 3 None ''east'']
                          (Some ''id'') True None)"

definition pairHeap :: heap where
  "pairHeap = heapOf (createData [regionRow 1 (Some [(''region'', 2)]) ''north'',
                                  regionRow 0 None ''south'']
                        (Some ''id'') True None)"

section \<open>Lemmas about the helpers\<close>

lemma findIndexFrom_takeWhile:
  "findIndexFrom i P xs =
     (if \<exists>x \<in> set xs. P x then int i + int (length (takeWhile (\<lambda>x. \<not> P x) xs)) else - 1)"
  by (induction xs arbitrary: i) auto

lemma findIndexFrom_none: "(findIndexFrom i P xs = - 1) = (\<forall>x \<in> set xs. \<not> P x)"
  by (auto simp: findIndexFrom_takeWhile)

lemma findIndexFrom_first:
  "j < length xs \<Longrightarrow> P (xs ! j) \<Longrightarrow> \<forall>k < j. \<not> P (xs ! k) \<Longrightarrow> findIndexFrom i P xs = int i + int j"
proof (induction xs arbitrary: i j)
  case Nil
  then show ?case by simp
next
  case (Cons x xs)
  show ?case
  proof (cases j)
    case 0
    with Cons.prems show ?thesis by simp
  next
    case (Suc j')
    with Cons.prems have np: "\<not> P x" by auto
    have "\<forall>k < j'. \<not> P (xs ! k)"
    proof (intro allI impI)
      fix k assume "k < j'"
      then have "Suc k < j" using Suc by simp
      with Cons.prems(3) have "\<not> P ((x # xs) ! Suc k)" by blast
      then show "\<not> P (xs ! k)" by simp
    qed
    with Cons.IH[of j' "Suc i"] Cons.prems Suc
    have "findIndexFrom (Suc i) P xs = int (Suc i) + int j'" by simp
    with np Suc show ?thesis by simp
  qed
qed

lemma findIndexFrom_found:
  assumes "findIndexFrom i P xs \<noteq> - 1"
  obtains j where "findIndexFrom i P xs = int i + int j" "j < length xs" "P (xs ! j)"
    "\<forall>k < j. \<not> P (xs ! k)" "List.find P xs = Some (xs ! j)"
proof -
  from assms have ex: "\<exists>x \<in> set xs. P x" by (simp add: findIndexFrom_none)
  define j where "j = length (takeWhile (\<lambda>x. \<not> P x) xs)"
  have 1: "findIndexFrom i P xs = int i + int j" using ex by (simp add: findIndexFrom_takeWhile j_def)
  have "takeWhile (\<lambda>x. \<not> P x) xs \<noteq> xs" using ex by (simp add: takeWhile_eq_all_conv)
  then have "length (takeWhile (\<lambda>x. \<not> P x) xs) \<noteq> length xs"
    by (metis takeWhile_eq_take take_all order_refl)
  with length_takeWhile_le[of "\<lambda>x. \<not> P x" xs]
  have 2: "j < length xs" unfolding j_def by linarith
  have 3: "P (xs ! j)" using nth_length_takeWhile[of "\<lambda>x. \<not> P x" xs] 2 by (simp add: j_def)
  have 4: "\<forall>k < j. \<not> P (xs ! k)"
  proof (intro allI impI)
    fix k assume k: "k < j"
    then have "takeWhile (\<lambda>x. \<not> P x) xs ! k = xs ! k" unfolding j_def by (rule takeWhile_nth)
    moreover have "takeWhile (\<lambda>x. \<not> P x) xs ! k \<in> set (takeWhile (\<lambda>x. \<not> P x) xs)"
      using k unfolding j_def by (rule nth_mem)
    ultimately show "\<not> P (xs ! k)" using set_takeWhileD by fastforce
  qed
  have 5: "List.find P xs = Some (xs ! j)"
    unfolding find_Some_iff using 2 3 4 by blast
  from that[OF 1 2 3 4 5] show ?thesis .
qed

lemma find_None_findIndexFrom: "(List.find P xs = None) = (findIndexFrom i P xs = - 1)"
  by (auto simp: findIndexFrom_none find_None_iff)

lemma map_of_fold_update:
  "map_of (fold (\<lambda>k acc. case g k of None \<Rightarrow> acc | Some v \<Rightarrow> AList.update k v acc) ks acc) c
     = (if c \<in> set ks \<and> g c \<noteq> None then g c else map_of acc c)"
  by (induction ks arbitrary: acc) (auto simp: update_conv' split: option.splits)

lemma set_Object_keys: "set (Object_keys m) = dom (map_of m)"
  by (simp add: Object_keys_def dom_map_of_conv_image_fst)

lemma map_of_objectSpread: "map_of (objectSpread a b) = map_of a ++ map_of b"
proof
  fix c
  show "map_of (objectSpread a b) c = (map_of a ++ map_of b) c"
    unfolding objectSpread_def map_of_fold_update
    by (auto simp: set_Object_keys map_add_def split: option.splits)
qed

lemma distinct_Object_keys: "distinct (Object_keys m)"
  by (simp add: Object_keys_def)

lemma map_of_createSubRowSpan:
  "map_of (createSubRowSpan m) c = (case map_of m c of None \<Rightarrow> None | Some e \<Rightarrow> subEntry e)"
proof -
  have eq: "createSubRowSpan m =
      fold (\<lambda>k acc. case (case map_of m k of None \<Rightarrow> None | Some e \<Rightarrow> subEntry e) of
                         None \<Rightarrow> acc | Some v \<Rightarrow> AList.update k v acc) (Object_keys m) []"
    unfolding createSubRowSpan_def subEntry_def
    by (rule arg_cong[where f="\<lambda>f. fold f (Object_keys m) []"])
       (auto simp: fun_eq_iff Let_def split: option.splits)
  show ?thesis
    unfolding eq map_of_fold_update
    by (auto simp: set_Object_keys split: option.splits)
qed

lemma readMember_own: "map_of m c = Some e \<Longrightarrow> readMember m c = Some (Own e)"
  by (simp add: readMember_def)

lemma readMember_none: "map_of m c = None \<Longrightarrow> c \<notin> set objectPrototype \<Longrightarrow> readMember m c = None"
  by (simp add: readMember_def)

lemma getRowSpanByRowKey_find:
  "getRowSpanByRowKey key c data =
     Inr (case List.find (\<lambda>r. rowKey r = key) data of
            None \<Rightarrow> None
          | Some row \<Rightarrow> readMember (rowSpanMap row) c)"
proof (cases "findPropIndex key data = - 1")
  case True
  then have "List.find (\<lambda>r. rowKey r = key) data = None"
    by (simp add: findPropIndex_def find_None_findIndexFrom[of _ _ 0])
  with True show ?thesis by (simp add: getRowSpanByRowKey_def)
next
  case False
  then have ne: "findIndexFrom 0 (\<lambda>r. rowKey r = key) data \<noteq> - 1" by (simp add: findPropIndex_def)
  from findIndexFrom_found[OF ne] obtain j where
    j: "findPropIndex key data = int j" "j < length data"
       "List.find (\<lambda>r. rowKey r = key) data = Some (data ! j)"
    by (auto simp: findPropIndex_def)
  with False show ?thesis
    by (simp add: getRowSpanByRowKey_def getRowSpan_def js_nth_def)
qed

section \<open>The sub entries of one forward step (C7)\<close>

text \<open>
  C7, as amended. For every span map of the previous row and every column,
  \<^verbatim>\<open>createSubRowSpan\<close> produces an entry for the column if and only if the previous row has
  an entry there whose span still extends past the new row (\<^verbatim>\<open>spanCount > 1 - count\<close>). The
  produced entry has \<^verbatim>\<open>mainRow = false\<close> and the \<^verbatim>\<open>mainRowKey\<close> and \<^verbatim>\<open>spanCount\<close> of the previous
  row's entry; its \<^verbatim>\<open>count\<close> is \<^verbatim>\<open>-1\<close> when the previous entry's count is not negative (the
  previous row is the main row, whose count is the span count), and the previous entry's
  count decremented by one otherwise.
\<close>

theorem createSubRowSpan_entry:
  "map_of (createSubRowSpan prevRowSpanMap) c =
     (case map_of prevRowSpanMap c of
        None \<Rightarrow> None
      | Some prevRowSpan \<Rightarrow>
          if spanCount prevRowSpan > 1 - count prevRowSpan
          then Some \<lparr>mainRow = False, mainRowKey = mainRowKey prevRowSpan,
                     count = (if count prevRowSpan \<ge> 0 then - 1 else count prevRowSpan - 1),
                     spanCount = spanCount prevRowSpan\<rparr>
          else None)"
  by (simp add: map_of_createSubRowSpan subEntry_def createRowSpan_def split: option.splits)

text \<open>
  C7 as stated fails right below a main row: the main entry of a span of three rows has
  count 3, and the sub entry derived from it has count \<^verbatim>\<open>-1\<close>, not \<^verbatim>\<open>3 - 1\<close>.
\<close>

theorem createSubRowSpan_count_counterexample:
  "map_of (createSubRowSpan [(''region'', createRowSpan True (VNum 1) 3 3)]) ''region''
     = Some (createRowSpan False (VNum 1) (- 1) 3)
   \<and> count (createRowSpan False (VNum 1) (- 1) 3) \<noteq> count (createRowSpan True (VNum 1) 3 3) - 1"
  by (simp add: map_of_createSubRowSpan subEntry_def createRowSpan_def)

section \<open>Span behaviour is switched by the primary sort column (C6)\<close>

text \<open>
  C6. \<^verbatim>\<open>isRowSpanEnabled\<close> returns true if and only if the sort state has a primary sort
  column and its name is \<^verbatim>\<open>sortKey\<close>; and whenever it returns false,
  \<^verbatim>\<open>getRowRangeWithRowSpan\<close> returns its input row range unchanged, for every row range, column
  range, list of columns, focus index and dataset, whatever the span maps hold.
\<close>

theorem isRowSpanEnabled_passthrough:
  "(isRowSpanEnabled st = Inr True \<longleftrightarrow> (\<exists>c cs. columns st = c # cs \<and> columnName c = ''sortKey''))
   \<and> (isRowSpanEnabled st = Inr False \<longrightarrow>
        getRowRangeWithRowSpan rowRange colRange visibleColumns rowIndex rawData st = Inr rowRange)"
  by (auto simp: isRowSpanEnabled_def getRowRangeWithRowSpan_def split: list.splits)

theorem isRowSpanEnabled_passthrough_witness:
  "isRowSpanEnabled sortedByName = Inr False
   \<and> getRowRangeWithRowSpan (1, 1) (0, 0) [''region''] None
        (createData [optRow 1 (Some [(''region'', 2)]), optRow 0 None] (Some ''id'') True None)
        sortedByName = Inr (1, 1)"
  using isRowSpanEnabled_passthrough[of sortedByName "(1, 1)" "(0, 0)" "[''region'']" None
      "createData [optRow 1 (Some [(''region'', 2)]), optRow 0 None] (Some ''id'') True None"]
  by (simp add: isRowSpanEnabled_def sortedByName_def)

section \<open>Looking a span up by row key, and the focus target (C10, C5)\<close>


lemma resolveFocusRowKey_truthy:
  assumes "truthy key" "c \<noteq> []" "isRowSpanEnabled st = Inr True"
  shows "resolveFocusRowKey rawData st key (Some c) =
           Inr (case List.find (\<lambda>r. rowKey r = key) rawData of
                  None \<Rightarrow> key
                | Some row \<Rightarrow> (case readMember (rowSpanMap row) c of
                                 None \<Rightarrow> key
                               | Some member \<Rightarrow> memberMainRowKey member))"
  using assms by (simp add: resolveFocusRowKey_def getRowSpanByRowKey_find split: option.splits)




text \<open>
  C5 at a sub row whose row key is 0. The dataset is in natural order, the row with key 0
  is the second row of the span headed by the row with key 1, and \<^verbatim>\<open>getRowSpanByRowKey\<close>
  finds its entry; but \<^verbatim>\<open>rowKey && columnName && isRowSpanEnabled(sortState)\<close> reads the key 0
  as false, so \<^verbatim>\<open>changeFocus\<close> stores the requested key 0 and not the main row's key 1.
  (For a truthy key, \<open>resolveFocusRowKey_truthy\<close> and \<open>changeFocus_applied\<close> give what C5 says.)
\<close>

theorem changeFocus_zero_rowKey:
  "getRowSpanByRowKey (VNum 0) ''region''
     (createData [optRow 1 (Some [(''region'', 2)]), optRow 0 None] (Some ''id'') True None)
     = Inr (Some (Own \<lparr>mainRow = False, mainRowKey = VNum 1, count = - 1, spanCount = 2\<rparr>))
   \<and> isRowSpanEnabled naturalOrder = Inr True
   \<and> changeFocus (\<lambda>c. False) (\<lambda>ev. False)
       (createData [optRow 1 (Some [(''region'', 2)]), optRow 0 None] (Some ''id'') True None)
       naturalOrder noFocus (VNum 0) (Some ''region'')
     = Inr \<lparr>focusRowKey = VNum 0, focusColumnName = Some ''region'',
            prevRowKey = VNull, prevColumnName = None\<rparr>"
  by code_simp

section \<open>Validation codes (C8)\<close>

lemma getValidationCode_members:
  "set (getValidationCode v (Some vd)) =
     {c. (c = REQUIRED \<and> required vd \<and> isBlank v)
       \<or> (c = TYPE_STRING \<and> dataType vd = Some ''string'' \<and> \<not> isString v)
       \<or> (c = TYPE_NUMBER \<and> dataType vd = Some ''number'' \<and> \<not> isNumber v)
       \<or> (c = MIN_CODE \<and> belowMin (min_bound vd) v)
       \<or> (c = MAX_CODE \<and> aboveMax (max_bound vd) v)
       \<or> (c = REGEXP \<and> failsRegExp (regExp vd) v)
       \<or> (c = VALIDATOR_FN \<and> failsValidatorFn (validatorFn vd) v)}"
  by (auto simp: getValidationCode_def pushIf_def)

lemma getValidationCode_order:
  "getValidationCode v validation =
     filter (\<lambda>c. c \<in> set (getValidationCode v validation))
       [REQUIRED, TYPE_STRING, TYPE_NUMBER, MIN_CODE, MAX_CODE, REGEXP, VALIDATOR_FN]"
  by (cases validation) (simp_all add: getValidationCode_def pushIf_def)

text \<open>
  C8 at a lower bound of 0. The value \<^verbatim>\<open>-1\<close> of a number column with \<^verbatim>\<open>min: 0\<close> violates the
  bound, but \<^verbatim>\<open>min && isNumber(value) && value < min\<close> reads the bound 0 as false and no code
  is reported. (\<open>getValidationCode_members\<close> and \<open>getValidationCode_order\<close> give the codes and
  their order in general.)
\<close>

theorem getValidationCode_min_zero:
  "getValidationCode (VNum (- 1))
     (Some \<lparr>required = False, dataType = Some ''number'', min_bound = Some 0, max_bound = None,
            regExp = None, validatorFn = None\<rparr>) = []"
  by (simp add: getValidationCode_def pushIf_def belowMin_def aboveMax_def failsRegExp_def
      failsValidatorFn_def isNumber_def isString_def isBlank_def)

section \<open>Spans built in one forward pass (C1)\<close>

lemma length_createRawRows [simp]: "length (createRawRows key None i prev data) = length data"
  by (induction data arbitrary: i prev) (auto simp: Let_def)

lemma createRawRows_nth_0:
  "data \<noteq> [] \<Longrightarrow> createRawRows key None i prev data ! 0 = createRawRow (data ! 0) i key prev"
  by (cases data) (auto simp: Let_def)

lemma createRawRows_nth_Suc:
  "Suc j < length data \<Longrightarrow>
   createRawRows key None i prev data ! Suc j =
     createRawRow (data ! Suc j) (i + Suc j) key (Some (createRawRows key None i prev data ! j))"
proof (induction data arbitrary: i prev j)
  case Nil
  then show ?case by simp
next
  case (Cons row rows)
  show ?case
  proof (cases j)
    case 0
    with Cons.prems show ?thesis
      by (cases rows) (auto simp: Let_def)
  next
    case (Suc j')
    with Cons.prems have "Suc j' < length rows" by simp
    from Cons.IH[OF this, of "Suc i" "Some (createRawRow row i key prev)"] Suc
    show ?thesis by (simp add: Let_def)
  qed
qed

lemma map_of_createMainRowSpanMap:
  "map_of (createMainRowSpanMap rowSpan key) c = mainEntry key rowSpan c"
proof (cases rowSpan)
  case None
  then show ?thesis by (simp add: createMainRowSpanMap_def mainEntry_def)
next
  case (Some rs)
  have eq: "createMainRowSpanMap (Some rs) key =
      fold (\<lambda>k acc. case (case map_of rs k of None \<Rightarrow> None | Some sc \<Rightarrow> Some (createRowSpan True key sc sc)) of
                         None \<Rightarrow> acc | Some v \<Rightarrow> AList.update k v acc) (Object_keys rs) []"
    unfolding createMainRowSpanMap_def
    by (simp, rule arg_cong[where f="\<lambda>f. fold f (Object_keys rs) []"])
       (auto simp: fun_eq_iff split: option.splits)
  show ?thesis
    unfolding Some eq map_of_fold_update
    by (auto simp: set_Object_keys mainEntry_def split: option.splits)
qed

lemma map_of_createRowSpanMap:
  "map_of (createRowSpanMap row rowSpan prevRow) c =
     (case inheritedEntry prevRow c of
        Some e \<Rightarrow> Some e
      | None \<Rightarrow> mainEntry (rowKey row) rowSpan c)"
proof -
  have m: "map_of (if \<not> (case rowSpan of None \<Rightarrow> True | Some rs \<Rightarrow> isEmpty rs)
             then createMainRowSpanMap rowSpan (rowKey row) else []) c = mainEntry (rowKey row) rowSpan c"
    by (auto simp: map_of_createMainRowSpanMap mainEntry_def isEmpty_def split: option.splits)
  have s: "map_of (case prevRow of
               None \<Rightarrow> []
             | Some p \<Rightarrow> if \<not> isEmpty (rowSpanMap p) then createSubRowSpan (rowSpanMap p) else []) c
           = inheritedEntry prevRow c"
    by (auto simp: map_of_createSubRowSpan inheritedEntry_def isEmpty_def split: option.splits)
  show ?thesis
    unfolding createRowSpanMap_def Let_def map_of_objectSpread map_add_def m s
    by (simp split: option.splits)
qed

lemma rowKey_createRawRow:
  "rowKey (createRawRow row index key prevRow) =
     (if truthyStr key then getProp row (the key) else VNum (real index))"
  by (simp add: createRawRow_def Let_def)

lemma map_of_rowSpanMap_createRawRow:
  "map_of (rowSpanMap (createRawRow row index key prevRow)) c =
     (case inheritedEntry prevRow c of
        Some e \<Rightarrow> Some e
      | None \<Rightarrow> mainEntry (rowKey (createRawRow row index key prevRow)) (rowSpanAttr row) c)"
  by (simp add: createRawRow_def Let_def map_of_createRowSpanMap split: option.splits)

lemma forward_pass_step:
  assumes "rows = createRawRows key None 0 None data" "i < length data"
  shows "map_of (rowSpanMap (rows ! i)) c =
     (case inheritedEntry (if i = 0 then None else Some (rows ! (i - 1))) c of
        Some e \<Rightarrow> Some e
      | None \<Rightarrow> mainEntry (rowKey (rows ! i)) (rowSpanAttr (data ! i)) c)"
proof (cases i)
  case 0
  with assms have "rows ! i = createRawRow (data ! 0) 0 key None"
    using createRawRows_nth_0[of data key 0 None] by auto
  with 0 show ?thesis by (simp add: map_of_rowSpanMap_createRawRow split: option.splits)
next
  case (Suc j)
  with assms have "rows ! i = createRawRow (data ! Suc j) (Suc j) key (Some (rows ! j))"
    using createRawRows_nth_Suc[of j data key 0 None] by auto
  with Suc show ?thesis by (simp add: map_of_rowSpanMap_createRawRow split: option.splits)
qed

lemma subEntry_cases:
  assumes "subEntry e = Some e'"
  shows "\<not> mainRow e' \<and> mainRowKey e' = mainRowKey e \<and> spanCount e' = spanCount e
         \<and> spanCount e > 1 - count e
         \<and> count e' = (if count e \<ge> 0 then - 1 else count e - 1)"
  using assms by (auto simp: subEntry_def createRowSpan_def split: if_splits)

lemma forward_pass_linked:
  assumes rows: "rows = createRawRows key None 0 None data"
  shows "i < length data \<Longrightarrow> map_of (rowSpanMap (rows ! i)) c = Some e \<Longrightarrow> entryLinked rows c i e"
proof (induction i arbitrary: e)
  case 0
  from forward_pass_step[OF rows 0(1), of c] 0(2)
  have "mainEntry (rowKey (rows ! 0)) (rowSpanAttr (data ! 0)) c = Some e"
    by (simp add: inheritedEntry_def)
  then obtain sc where "e = createRowSpan True (rowKey (rows ! 0)) sc sc"
    by (auto simp: mainEntry_def split: option.splits)
  with 0(2) show ?case unfolding entryLinked_def
    by (intro exI[of _ 0]) (simp add: createRowSpan_def)
next
  case (Suc i)
  from forward_pass_step[OF rows Suc.prems(1), of c] Suc.prems(2)
  have st: "(case inheritedEntry (Some (rows ! i)) c of
        Some e \<Rightarrow> Some e
      | None \<Rightarrow> mainEntry (rowKey (rows ! Suc i)) (rowSpanAttr (data ! Suc i)) c) = Some e"
    by simp
  show ?case
  proof (cases "inheritedEntry (Some (rows ! i)) c")
    case None
    with st have "mainEntry (rowKey (rows ! Suc i)) (rowSpanAttr (data ! Suc i)) c = Some e" by simp
    then obtain sc where "e = createRowSpan True (rowKey (rows ! Suc i)) sc sc"
      by (auto simp: mainEntry_def split: option.splits)
    with Suc.prems(2) show ?thesis unfolding entryLinked_def
      by (intro exI[of _ "Suc i"]) (simp add: createRowSpan_def)
  next
    case (Some e1)
    with st have e1: "e1 = e" by simp
    from Some obtain e' where e': "map_of (rowSpanMap (rows ! i)) c = Some e'" "subEntry e' = Some e"
      unfolding e1 by (auto simp: inheritedEntry_def split: option.splits)
    from Suc.prems(1) have "i < length data" by simp
    from Suc.IH[OF this e'(1)] obtain m where m: "m \<le> i"
      "map_of (rowSpanMap (rows ! m)) c
                 = Some (createRowSpan True (rowKey (rows ! m)) (spanCount e') (spanCount e'))"
      "mainRowKey e' = rowKey (rows ! m)"
      "m < i \<longrightarrow> \<not> mainRow e' \<and> count e' = - int (i - m)
                     \<and> (i - m = 1 \<or> int (i - m) < spanCount e')"
      unfolding entryLinked_def by blast
    note se = subEntry_cases[OF e'(2)]
    have cnt: "count e = - int (Suc i - m) \<and> (Suc i - m = 1 \<or> int (Suc i - m) < spanCount e)"
    proof (cases "m = i")
      case True
      with m(2) e'(1)
      have "e' = createRowSpan True (rowKey (rows ! m)) (spanCount e') (spanCount e')" by simp
      from arg_cong[OF this, of count] have "count e' = spanCount e'"
        by (simp add: createRowSpan_def)
      with se True show ?thesis by auto
    next
      case False
      with m(1) have "m < i" by simp
      with m(4) have "count e' = - int (i - m)" by simp
      with se \<open>m < i\<close> show ?thesis by auto
    qed
    show ?thesis unfolding entryLinked_def
    proof (intro exI[of _ m] conjI impI)
      show "m \<le> Suc i" using m(1) by simp
      show "map_of (rowSpanMap (rows ! m)) c
                 = Some (createRowSpan True (rowKey (rows ! m)) (spanCount e) (spanCount e))"
        using m(2) se by simp
      show "mainRowKey e = rowKey (rows ! m)" using m(3) se by simp
      show "\<not> mainRow e" using se by simp
      show "count e = - int (Suc i - m)" using cnt by simp
      show "Suc i - m = 1 \<or> int (Suc i - m) < spanCount e" using cnt by simp
    qed
  qed
qed

lemma forward_pass_span:
  assumes rows: "rows = createRawRows key None 0 None data"
      and main: "map_of (rowSpanMap (rows ! r)) c = Some (createRowSpan True K k k)"
      and k: "2 \<le> k"
  shows "j < nat k \<Longrightarrow> r + j < length data \<Longrightarrow>
         map_of (rowSpanMap (rows ! (r + j))) c =
           Some (if j = 0 then createRowSpan True K k k else createRowSpan False K (- int j) k)"
proof (induction j)
  case 0
  with main show ?case by simp
next
  case (Suc j)
  then have ih: "map_of (rowSpanMap (rows ! (r + j))) c =
           Some (if j = 0 then createRowSpan True K k k else createRowSpan False K (- int j) k)"
    by simp
  from Suc.prems k have "subEntry (if j = 0 then createRowSpan True K k k else createRowSpan False K (- int j) k)
      = Some (createRowSpan False K (- int (Suc j)) k)"
    by (auto simp: subEntry_def createRowSpan_def)
  with ih have "inheritedEntry (Some (rows ! (r + j))) c = Some (createRowSpan False K (- int (Suc j)) k)"
    by (simp add: inheritedEntry_def)
  with forward_pass_step[OF rows Suc.prems(2), of c] show ?case by simp
qed

lemma distinct_map_nth_eq:
  assumes "distinct (map f xs)" "i < length xs" "j < length xs" "f (xs ! i) = f (xs ! j)"
  shows "i = j"
proof -
  from assms(2-4) have "map f xs ! i = map f xs ! j" by simp
  with nth_eq_iff_index_eq[OF assms(1), of i j] assms(2,3) show ?thesis by simp
qed

text \<open>
  C1, as amended. Let the dataset be built by \<^verbatim>\<open>createData\<close> in one forward pass (no
  \<^verbatim>\<open>prevRows\<close>, no tree column). If row \<open>r\<close> declares a row span of size \<open>k \<ge> 2\<close> on column \<open>c\<close>,
  at least \<open>k - 1\<close> rows follow it, and row \<open>r\<close> does not lie inside an earlier span on \<open>c\<close> (it
  is the first row, or the row before it has no entry for \<open>c\<close> that still extends past it),
  then: row \<open>r\<close> has the main entry (\<^verbatim>\<open>mainRow\<close> true, \<^verbatim>\<open>mainRowKey\<close> its own key, \<^verbatim>\<open>count\<close> and
  \<^verbatim>\<open>spanCount\<close> equal to \<open>k\<close>); each of the next \<open>k - 1\<close> rows has a sub entry with \<^verbatim>\<open>mainRow\<close>
  false, \<^verbatim>\<open>mainRowKey\<close> the key of \<open>r\<close>, \<^verbatim>\<open>spanCount = k\<close> and \<^verbatim>\<open>count\<close> the negative distance from
  \<open>r\<close>; and, the row keys being pairwise distinct, the rows whose entry for \<open>c\<close> has the key
  of \<open>r\<close> as \<^verbatim>\<open>mainRowKey\<close> are exactly the \<open>k\<close> rows from \<open>r\<close> on.
\<close>

theorem createData_span:
  assumes rows: "rows = createData data columnKeyColumnName lazyObservable None"
      and len: "r + nat k \<le> length data"
      and k: "2 \<le> k"
      and decl: "rowSpanAttr (data ! r) = Some rs" "map_of rs c = Some k"
      and free: "r = 0 \<or> (case map_of (rowSpanMap (rows ! (r - 1))) c of
                             None \<Rightarrow> True
                           | Some e \<Rightarrow> spanCount e \<le> 1 - count e)"
  shows "map_of (rowSpanMap (rows ! r)) c = Some (createRowSpan True (rowKey (rows ! r)) k k)
       \<and> (\<forall>j. 1 \<le> j \<and> j < nat k \<longrightarrow>
             map_of (rowSpanMap (rows ! (r + j))) c
               = Some (createRowSpan False (rowKey (rows ! r)) (- int j) k))
       \<and> (distinct (map rowKey rows) \<longrightarrow>
           (\<forall>i < length rows.
              (\<exists>e. map_of (rowSpanMap (rows ! i)) c = Some e \<and> mainRowKey e = rowKey (rows ! r))
                \<longleftrightarrow> (r \<le> i \<and> i < r + nat k)))"
proof -
  define key where "key = (if lazyObservable then columnKeyColumnName else Some ''rowKey'')"
  have rows': "rows = createRawRows key None 0 None data"
    by (simp add: rows createData_def key_def)
  have lr: "length rows = length data" by (simp add: rows')
  from len k have r: "r < length data" by linarith
  have inh: "inheritedEntry (if r = 0 then None else Some (rows ! (r - 1))) c = None"
    using free by (auto simp: inheritedEntry_def subEntry_def split: option.splits)
  have main: "map_of (rowSpanMap (rows ! r)) c = Some (createRowSpan True (rowKey (rows ! r)) k k)"
    using forward_pass_step[OF rows' r, of c] inh decl by (simp add: mainEntry_def)
  have subs: "map_of (rowSpanMap (rows ! (r + j))) c
               = Some (createRowSpan False (rowKey (rows ! r)) (- int j) k)"
    if "1 \<le> j" "j < nat k" for j
  proof -
    from that len have "r + j < length data" by linarith
    from forward_pass_span[OF rows' main k that(2) this] that(1) show ?thesis by simp
  qed
  have members: "(\<exists>e. map_of (rowSpanMap (rows ! i)) c = Some e \<and> mainRowKey e = rowKey (rows ! r))
               \<longleftrightarrow> (r \<le> i \<and> i < r + nat k)"
    if keys: "distinct (map rowKey rows)" and i: "i < length rows" for i
  proof
    assume "\<exists>e. map_of (rowSpanMap (rows ! i)) c = Some e \<and> mainRowKey e = rowKey (rows ! r)"
    then obtain e where e: "map_of (rowSpanMap (rows ! i)) c = Some e" "mainRowKey e = rowKey (rows ! r)"
      by blast
    from i lr have "i < length data" by simp
    from forward_pass_linked[OF rows' this e(1)] obtain m where m: "m \<le> i"
      "map_of (rowSpanMap (rows ! m)) c
                 = Some (createRowSpan True (rowKey (rows ! m)) (spanCount e) (spanCount e))"
      "mainRowKey e = rowKey (rows ! m)"
      "m < i \<longrightarrow> \<not> mainRow e \<and> count e = - int (i - m)
                     \<and> (i - m = 1 \<or> int (i - m) < spanCount e)"
      unfolding entryLinked_def by blast
    from m(1) i have ml: "m < length rows" by simp
    from r lr have rl: "r < length rows" by simp
    from m(3) e(2) have "rowKey (rows ! m) = rowKey (rows ! r)" by simp
    from distinct_map_nth_eq[OF keys ml rl this] have mr: "m = r" .
    from m(2) main have "createRowSpan True (rowKey (rows ! r)) (spanCount e) (spanCount e)
         = createRowSpan True (rowKey (rows ! r)) k k" unfolding mr by simp
    then have sc: "spanCount e = k" by (simp add: createRowSpan_def)
    from m(1) m(4) k show "r \<le> i \<and> i < r + nat k" unfolding mr sc by (cases "r < i") auto
  next
    assume a: "r \<le> i \<and> i < r + nat k"
    show "\<exists>e. map_of (rowSpanMap (rows ! i)) c = Some e \<and> mainRowKey e = rowKey (rows ! r)"
    proof (cases "i = r")
      case True
      with main show ?thesis by (simp add: createRowSpan_def)
    next
      case False
      with a have "1 \<le> i - r" "i - r < nat k" by auto
      from subs[OF this] a show ?thesis by (simp add: createRowSpan_def)
    qed
  qed
  from main subs members show ?thesis by blast
qed

theorem createData_span_witness:
  "0 + nat 3 \<le> length regionRows
   \<and> rowSpanAttr (regionRows ! 0) = Some [(''region'', 3)]
   \<and> map rowKey (createData regionRows (Some ''id'') True None) = [VNum 1, VNum 2, VNum 3]
   \<and> map_of (rowSpanMap (createData regionRows (Some ''id'') True None ! 0)) ''region''
       = Some (createRowSpan True (VNum 1) 3 3)
   \<and> map_of (rowSpanMap (createData regionRows (Some ''id'') True None ! 1)) ''region''
       = Some (createRowSpan False (VNum 1) (- 1) 3)
   \<and> map_of (rowSpanMap (createData regionRows (Some ''id'') True None ! 2)) ''region''
       = Some (createRowSpan False (VNum 1) (- 2) 3)"
proof -
  let ?rows = "createData regionRows (Some ''id'') True None"
  have len: "0 + nat 3 \<le> length regionRows" by code_simp
  have decl: "rowSpanAttr (regionRows ! 0) = Some [(''region'', 3)]"
    "map_of [(''region'', 3 :: int)] ''region'' = Some 3" by code_simp+
  have keys: "map rowKey ?rows = [VNum 1, VNum 2, VNum 3]" by code_simp
  then have dist: "distinct (map rowKey ?rows)" by simp
  from keys have k0: "rowKey (?rows ! 0) = VNum 1" by (metis nth_Cons_0 nth_map length_map length_greater_0_conv list.distinct(1))
  from createData_span[OF refl len _ decl] k0
  have main: "map_of (rowSpanMap (?rows ! 0)) ''region'' = Some (createRowSpan True (VNum 1) 3 3)"
    and subs: "\<forall>j. 1 \<le> j \<and> j < nat 3 \<longrightarrow>
             map_of (rowSpanMap (?rows ! (0 + j))) ''region''
               = Some (createRowSpan False (VNum 1) (- int j) 3)"
    by simp_all
  have s1: "map_of (rowSpanMap (?rows ! 1)) ''region'' = Some (createRowSpan False (VNum 1) (- 1) 3)"
    using subs[rule_format, of 1] by simp
  have s2: "map_of (rowSpanMap (?rows ! 2)) ''region'' = Some (createRowSpan False (VNum 1) (- 2) 3)"
    using subs[rule_format, of 2] by (simp add: eval_nat_numeral)
  from len decl(1) keys main s1 s2 show ?thesis
    by - (intro conjI; assumption)
qed

text \<open>
  C1 as stated fails when the declaring row lies inside an earlier span on the same column:
  \<^verbatim>\<open>{ ...mainRowSpanMap, ...subRowSpanMap }\<close> lets the inherited sub entry win. The second of
  four rows declares a span of two rows and one row follows it, but the first row's span of
  three rows covers it, so its entry is a sub entry.
\<close>

theorem createData_span_counterexample:
  "1 + nat 2 \<le> length overlapRows
   \<and> rowSpanAttr (overlapRows ! 1) = Some [(''region'', 2)]
   \<and> map rowKey (createData overlapRows (Some ''id'') True None) = [VNum 1, VNum 2, VNum 3, VNum 4]
   \<and> map_of (rowSpanMap (createData overlapRows (Some ''id'') True None ! 1)) ''region''
       = Some \<lparr>mainRow = False, mainRowKey = VNum 1, count = - 1, spanCount = 3\<rparr>"
  by code_simp

section \<open>The range of a single selected cell (C4)\<close>

lemma rowSpanRangeLoop_single:
  "rowSpanRangeLoop cols raw i i rr = rowSpanRangeStep cols raw i rr"
proof (cases "rowSpanRangeStep cols raw i rr")
  case (Inl e)
  then show ?thesis by (subst rowSpanRangeLoop.simps) simp
next
  case (Inr rr')
  have "rowSpanRangeLoop cols raw (i + 1) i rr' = Inr rr'"
    by (subst rowSpanRangeLoop.simps) simp
  with Inr show ?thesis by (subst rowSpanRangeLoop.simps) simp
qed

lemma rowSpanRangeStep_in_span:
  assumes sp: "spanAt raw c m k"
      and col: "js_nth cols ci = Some c"
      and s: "m \<le> s" "int s < int m + k" and t: "m \<le> t" "int t < int m + k"
  shows "rowSpanRangeStep cols raw ci (int s, int t) = Inr (int m, int m + k - 1)"
proof -
  from sp s t have len: "s < length raw" "t < length raw" by (auto simp: spanAt_def)
  from sp s obtain es where es: "map_of (rowSpanMap (raw ! s)) c = Some es"
    "mainRowKey es = rowKey (raw ! m)" "spanCount es = k" unfolding spanAt_def by blast
  from sp t obtain et where et: "map_of (rowSpanMap (raw ! t)) c = Some et"
    "mainRowKey et = rowKey (raw ! m)" "spanCount et = k" unfolding spanAt_def by blast
  from sp have fi: "findPropIndex (rowKey (raw ! m)) raw = int m" by (simp add: spanAt_def)
  show ?thesis
    using len col readMember_own[OF es(1)] readMember_own[OF et(1)] es(2,3) et(2,3) fi s t
    by (auto simp: rowSpanRangeStep_def js_nth_def expandStart_def expandEnd_def Let_def)
qed

lemma getRowSpanRange_in_span:
  assumes sp: "spanAt raw c m k"
      and col: "js_nth cols ci = Some c"
      and r: "m \<le> r" "int r < int m + k"
  shows "getRowSpanRange (int r, int r) (ci, ci) cols raw = Inr (int m, int m + k - 1)"
proof -
  from sp have k: "1 \<le> k" by (simp add: spanAt_def)
  have first: "rowSpanRangeLoop cols raw ci ci (int r, int r) = Inr (int m, int m + k - 1)"
    by (simp add: rowSpanRangeLoop_single rowSpanRangeStep_in_span[OF sp col r r])
  have "int m + k - 1 = int (nat (int m + k - 1))" using k by simp
  moreover have "m \<le> nat (int m + k - 1)" "int (nat (int m + k - 1)) < int m + k"
    using k by auto
  ultimately have second: "rowSpanRangeLoop cols raw ci ci (int m, int m + k - 1) = Inr (int m, int m + k - 1)"
    using rowSpanRangeStep_in_span[OF sp col le_refl _ \<open>m \<le> nat (int m + k - 1)\<close>] k
    by (simp add: rowSpanRangeLoop_single)
  have fixed: "getRowSpanRange (int m, int m + k - 1) (ci, ci) cols raw = Inr (int m, int m + k - 1)"
    by (subst getRowSpanRange.simps) (simp add: second)
  show ?thesis
    by (subst getRowSpanRange.simps) (simp add: first fixed)
qed

lemma twoColumnRows_created:
  "map rowKey (createData twoColumnRows (Some ''id'') True None) = [VNum 1, VNum 2, VNum 3, VNum 4]
   \<and> map rowSpanMap (createData twoColumnRows (Some ''id'') True None)
     = [[(''name'', createRowSpan True (VNum 1) 4 4)],
        [(''region'', createRowSpan True (VNum 2) 2 2), (''name'', createRowSpan False (VNum 1) (- 1) 4)],
        [(''region'', createRowSpan False (VNum 2) (- 1) 2), (''name'', createRowSpan False (VNum 1) (- 2) 4)],
        [(''name'', createRowSpan False (VNum 1) (- 3) 4)]]"
  by code_simp

text \<open>
  C4, as amended. Let the dataset contain a span of \<open>k\<close> rows on the visible column \<open>c\<close>,
  headed by the row at index \<open>m\<close>: each of the \<open>k\<close> rows from \<open>m\<close> on has an entry for \<open>c\<close> with
  the main row's key and \<^verbatim>\<open>spanCount = k\<close>, and \<open>m\<close> is the index \<^verbatim>\<open>findPropIndex\<close> gives for that key.
  Then \<^verbatim>\<open>getMaxRowSpanRange\<close>, applied to the row range \<open>[r, r]\<close> of a member row \<open>r\<close> (with
  \<^verbatim>\<open>focusRowIndex\<close> equal to \<open>r\<close> or \<^verbatim>\<open>null\<close>) and to the column range \<open>[ci, ci]\<close> of the column \<open>c\<close>
  alone, returns exactly \<open>[m, m + k - 1]\<close>.
\<close>

theorem getMaxRowSpanRange_single_cell:
  assumes "spanAt rawData c m k"
      and "js_nth visibleColumns ci = Some c"
      and "m \<le> r" "int r < int m + k"
      and "focusRowIndex = None \<or> focusRowIndex = Some (int r)"
  shows "getMaxRowSpanRange (int r, int r) (ci, ci) visibleColumns focusRowIndex rawData
           = Inr (int m, int m + k - 1)"
  using assms(5) getRowSpanRange_in_span[OF assms(1-4)]
  by (auto simp: getMaxRowSpanRange_def getSortedRange_def)

theorem getMaxRowSpanRange_single_cell_witness:
  "spanAt (createData twoColumnRows (Some ''id'') True None) ''region'' 1 2
   \<and> js_nth [''name'', ''region''] 1 = Some ''region''
   \<and> getMaxRowSpanRange (2, 2) (1, 1) [''name'', ''region''] (Some 2)
        (createData twoColumnRows (Some ''id'') True None) = Inr (1, 2)"
proof -
  let ?raw = "createData twoColumnRows (Some ''id'') True None"
  have e1: "map_of (rowSpanMap (?raw ! 1)) ''region'' = Some (createRowSpan True (VNum 2) 2 2)"
    and e2: "map_of (rowSpanMap (?raw ! 2)) ''region'' = Some (createRowSpan False (VNum 2) (- 1) 2)"
    and k1: "rowKey (?raw ! 1) = VNum 2"
    and fi: "findPropIndex (rowKey (?raw ! 1)) ?raw = int 1"
    and len: "int 1 + 2 \<le> int (length ?raw)"
    by code_simp+
  have sp: "spanAt ?raw ''region'' 1 2"
    unfolding spanAt_def
  proof (intro conjI allI impI)
    fix i :: nat assume "1 \<le> i \<and> int i < int 1 + 2"
    then have "i = 1 \<or> i = 2" by auto
    with e1 e2 k1 show "\<exists>e. map_of (rowSpanMap (?raw ! i)) ''region'' = Some e
                  \<and> mainRowKey e = rowKey (?raw ! 1) \<and> spanCount e = 2"
      by (auto simp: createRowSpan_def)
  qed (use fi len in simp_all)
  have col: "js_nth [''name'', ''region''] 1 = Some ''region''" by code_simp
  from getMaxRowSpanRange_single_cell[OF sp col, of 2 "Some 2"] sp col
  show ?thesis by simp
qed

text \<open>
  C4 as stated fails for a column range that holds \<open>c\<close> and another spanned column: the
  function takes the largest range over all columns of the range. The row at index 2 is a
  member of the \<^verbatim>\<open>region\<close> span (main row index 1, two rows), the column range \<open>[0, 1]\<close> contains
  \<^verbatim>\<open>region\<close>, and the result is \<open>[0, 3]\<close>, the span of \<^verbatim>\<open>name\<close>, not \<open>[1, 2]\<close>.
\<close>

theorem getMaxRowSpanRange_counterexample:
  "js_nth [''name'', ''region''] 1 = Some ''region''
   \<and> getMaxRowSpanRange (2, 2) (0, 1) [''name'', ''region''] None
       (createData twoColumnRows (Some ''id'') True None) = Inr (0, 3)
   \<and> findPropIndex (VNum 2) (createData twoColumnRows (Some ''id'') True None) = 1
   \<and> map_of (rowSpanMap (createData twoColumnRows (Some ''id'') True None ! 2)) ''region''
       = Some (createRowSpan False (VNum 2) (- 1) 2)"
  by code_simp

section \<open>Lemmas about re-linking\<close>

lemma sameColumn_refl: "sameColumn c h h"
  by (simp add: sameColumn_def)

lemma sameColumn_trans: "sameColumn c h h1 \<Longrightarrow> sameColumn c h1 h2 \<Longrightarrow> sameColumn c h h2"
  by (simp add: sameColumn_def)

lemma spanEntry_setRowSpan:
  "spanEntry (setRowSpan h a c rs) b d = (if b = a \<and> d = c then Some rs else spanEntry h b d)"
  by (simp add: spanEntry_def setRowSpan_def update_conv')

lemma spanEntry_deleteRowSpan:
  "spanEntry (deleteRowSpan h a c) b d = (if b = a \<and> d = c then None else spanEntry h b d)"
  by (simp add: spanEntry_def deleteRowSpan_def delete_conv')

lemma spanEntry_copyCell: "spanEntry (copyCell h t s c) b d = spanEntry h b d"
  by (simp add: spanEntry_def copyCell_def)

lemma rowKey_setRowSpan: "rowKey (setRowSpan h a c rs b) = rowKey (h b)"
  by (simp add: setRowSpan_def)

lemma rowKey_deleteRowSpan: "rowKey (deleteRowSpan h a c b) = rowKey (h b)"
  by (simp add: deleteRowSpan_def)

lemma rowKey_copyCell: "rowKey (copyCell h t s c b) = rowKey (h b)"
  by (simp add: copyCell_def)

lemma cells_setRowSpan: "cells (setRowSpan h a c rs b) = cells (h b)"
  by (simp add: setRowSpan_def)

lemma cells_deleteRowSpan: "cells (deleteRowSpan h a c b) = cells (h b)"
  by (simp add: deleteRowSpan_def)

lemma cells_copyCell:
  "cells (copyCell h t s c b) d = (if b = t \<and> d = c then cells (h s) c else cells (h b) d)"
  by (simp add: copyCell_def)

lemmas heap_simps = spanEntry_setRowSpan spanEntry_deleteRowSpan spanEntry_copyCell
  rowKey_setRowSpan rowKey_deleteRowSpan rowKey_copyCell
  cells_setRowSpan cells_deleteRowSpan cells_copyCell

lemma js_nth_inj:
  "distinct xs \<Longrightarrow> js_nth xs i = Some a \<Longrightarrow> js_nth xs j = Some a \<Longrightarrow> i = j"
  by (auto simp: js_nth_def nth_eq_iff_index_eq split: if_splits)

lemma js_nth_mem: "js_nth xs i = Some a \<Longrightarrow> a \<in> set xs"
  by (auto simp: js_nth_def split: if_splits)

text \<open>The loop of \<^verbatim>\<open>updateSubRowSpan\<close>: what it leaves in the store.\<close>

lemma updateSubRowSpanLoop_frame:
  "updateSubRowSpanLoop data mainA c mi off sc h = Inr h' \<Longrightarrow>
     (\<forall>a. rowKey (h' a) = rowKey (h a) \<and> cells (h' a) = cells (h a)
          \<and> (\<forall>d. d \<noteq> c \<longrightarrow> spanEntry h' a d = spanEntry h a d)
          \<and> ((\<forall>ofs. off \<le> ofs \<and> ofs < sc \<longrightarrow> js_nth data (mi + ofs) \<noteq> Some a)
                \<longrightarrow> spanEntry h' a c = spanEntry h a c))"
proof (induction data mainA c mi off sc h rule: updateSubRowSpanLoop.induct)
  case (1 data mainA c mi off sc h)
  show ?case
  proof (cases "off < sc")
    case False
    with "1.prems" show ?thesis by (simp add: updateSubRowSpanLoop.simps)
  next
    case True
    with "1.prems" obtain row where row: "js_nth data (mi + off) = Some row"
      and rec: "updateSubRowSpanLoop data mainA c mi (off + 1) sc
                  (setRowSpan h row c (createRowSpan False (rowKey (h mainA)) (- off) sc)) = Inr h'"
      by (subst (asm) updateSubRowSpanLoop.simps) (auto split: option.splits)
    note ih = "1.IH"[OF True row rec]
    show ?thesis
    proof (intro allI conjI impI)
      fix a
      show "rowKey (h' a) = rowKey (h a)" using ih by (simp add: heap_simps)
      show "cells (h' a) = cells (h a)" using ih by (simp add: heap_simps)
    next
      fix a d assume "d \<noteq> c"
      then show "spanEntry h' a d = spanEntry h a d" using ih by (simp add: heap_simps)
    next
      fix a assume na: "\<forall>ofs. off \<le> ofs \<and> ofs < sc \<longrightarrow> js_nth data (mi + ofs) \<noteq> Some a"
      with True row have "a \<noteq> row" by auto
      moreover from na have "\<forall>ofs. off + 1 \<le> ofs \<and> ofs < sc \<longrightarrow> js_nth data (mi + ofs) \<noteq> Some a" by auto
      ultimately show "spanEntry h' a c = spanEntry h a c" using ih by (simp add: heap_simps)
    qed
  qed
qed

lemma updateSubRowSpanLoop_subs:
  "updateSubRowSpanLoop data mainA c mi off sc h = Inr h' \<Longrightarrow> distinct data \<Longrightarrow>
     (\<forall>ofs. off \<le> ofs \<and> ofs < sc \<longrightarrow>
        (\<exists>a. js_nth data (mi + ofs) = Some a
            \<and> spanEntry h' a c = Some (createRowSpan False (rowKey (h mainA)) (- ofs) sc)))"
proof (induction data mainA c mi off sc h rule: updateSubRowSpanLoop.induct)
  case (1 data mainA c mi off sc h)
  show ?case
  proof (cases "off < sc")
    case False
    then show ?thesis by auto
  next
    case True
    with "1.prems" obtain row where row: "js_nth data (mi + off) = Some row"
      and rec: "updateSubRowSpanLoop data mainA c mi (off + 1) sc
                  (setRowSpan h row c (createRowSpan False (rowKey (h mainA)) (- off) sc)) = Inr h'"
      by (subst (asm) updateSubRowSpanLoop.simps) (auto split: option.splits)
    note ih = "1.IH"[OF True row rec "1.prems"(2)]
    note fr = updateSubRowSpanLoop_frame[OF rec]
    show ?thesis
    proof (intro allI impI)
      fix ofs assume ofs: "off \<le> ofs \<and> ofs < sc"
      show "\<exists>a. js_nth data (mi + ofs) = Some a
            \<and> spanEntry h' a c = Some (createRowSpan False (rowKey (h mainA)) (- ofs) sc)"
      proof (cases "ofs = off")
        case True
        have "\<forall>ofs'. off + 1 \<le> ofs' \<and> ofs' < sc \<longrightarrow> js_nth data (mi + ofs') \<noteq> Some row"
          using js_nth_inj[OF "1.prems"(2) row] by fastforce
        with fr have "spanEntry h' row c
            = spanEntry (setRowSpan h row c (createRowSpan False (rowKey (h mainA)) (- off) sc)) row c"
          by blast
        with row True show ?thesis by (simp add: heap_simps)
      next
        case False
        with ofs have "off + 1 \<le> ofs \<and> ofs < sc" by simp
        with ih show ?thesis by (simp add: heap_simps)
      qed
    qed
  qed
qed

lemma findPropIndex_map_cong:
  "\<forall>a. rowKey (h' a) = rowKey (h a) \<Longrightarrow> findPropIndex v (map h' data) = findPropIndex v (map h data)"
proof -
  have "findIndexFrom i (\<lambda>r. rowKey r = v) (map h' data) = findIndexFrom i (\<lambda>r. rowKey r = v) (map h data)"
    if "\<forall>a. rowKey (h' a) = rowKey (h a)" for i
    using that by (induction data arbitrary: i) auto
  then show "\<forall>a. rowKey (h' a) = rowKey (h a) \<Longrightarrow> ?thesis" by (simp add: findPropIndex_def)
qed

lemma findProp_cong:
  "\<forall>a. rowKey (h' a) = rowKey (h a) \<Longrightarrow> findProp v h' data = findProp v h data"
  using findPropIndex_map_cong[of h' h v data] by (simp add: findProp_def)

text \<open>With distinct row keys, a row of \<open>data\<close> sits at the index found for its key, and so at
  no later offset from it.\<close>

lemma findPropIndex_own:
  assumes "distinct (map (\<lambda>a. rowKey (h a)) data)" "a \<in> set data"
  shows "js_nth data (findPropIndex (rowKey (h a)) (map h data)) = Some a"
proof -
  from assms(2) obtain j where j: "j < length data" "data ! j = a" by (auto simp: in_set_conv_nth)
  have "\<forall>k < j. \<not> rowKey (map h data ! k) = rowKey (h a)"
  proof (intro allI impI notI)
    fix k assume k: "k < j" "rowKey (map h data ! k) = rowKey (h a)"
    with j have "(\<lambda>a. rowKey (h a)) (data ! k) = (\<lambda>a. rowKey (h a)) (data ! j)" by simp
    from distinct_map_nth_eq[OF assms(1) _ j(1) this] k j show False by simp
  qed
  with findIndexFrom_first[of j "map h data" "\<lambda>r. rowKey r = rowKey (h a)" 0] j
  have "findPropIndex (rowKey (h a)) (map h data) = int j" by (simp add: findPropIndex_def)
  with j show ?thesis by (simp add: js_nth_def)
qed

lemma not_at_later_offset:
  assumes "distinct (map (\<lambda>a. rowKey (h a)) data)" "1 \<le> ofs"
  shows "js_nth data (findPropIndex (rowKey (h a)) (map h data) + ofs) \<noteq> Some a"
proof
  assume at: "js_nth data (findPropIndex (rowKey (h a)) (map h data) + ofs) = Some a"
  then have "a \<in> set data" by (rule js_nth_mem)
  from findPropIndex_own[OF assms(1) this] at assms(1)
  have "findPropIndex (rowKey (h a)) (map h data) + ofs = findPropIndex (rowKey (h a)) (map h data)"
    using js_nth_inj[of data] distinct_map by blast
  with assms(2) show False by simp
qed

lemma sameColumn_setRowSpan: "d \<noteq> c \<Longrightarrow> sameColumn c h (setRowSpan h a d rs)"
  by (simp add: sameColumn_def heap_simps)

lemma sameColumn_deleteRowSpan: "d \<noteq> c \<Longrightarrow> sameColumn c h (deleteRowSpan h a d)"
  by (simp add: sameColumn_def heap_simps)

lemma sameColumn_copyCell: "d \<noteq> c \<Longrightarrow> sameColumn c h (copyCell h t s d)"
  by (simp add: sameColumn_def heap_simps)

lemma updateSubRowSpan_other:
  assumes "updateSubRowSpan h data mainA d off sc = Inr h'" "d \<noteq> c"
  shows "sameColumn c h h'"
  using updateSubRowSpanLoop_frame[OF assms(1)[unfolded updateSubRowSpan_def Let_def]] assms(2)
  by (simp add: sameColumn_def)

lemma appendColumn_other:
  assumes "appendColumn data prevRow ext h d = Inr h'" "d \<noteq> c"
  shows "sameColumn c h h'"
proof (cases "spanEntry h prevRow d")
  case None
  with assms show ?thesis by (simp add: appendColumn_def sameColumn_refl)
next
  case (Some ps)
  with assms(1) obtain mainA ms where m: "spanMainRow h data prevRow ps = Some mainA"
    "spanEntry h mainA d = Some ms"
    by (auto simp: appendColumn_def split: option.splits)
  show ?thesis
  proof (cases "spanCount ms > appendStartOffset ps ext")
    case False
    with assms(1) Some m show ?thesis by (simp add: appendColumn_def sameColumn_refl)
  next
    case True
    with assms(1) Some m have
      "updateSubRowSpan (setRowSpan h mainA d (ms\<lparr>count := count ms + 1, spanCount := spanCount ms + 1\<rparr>))
         data mainA d 1 (spanCount ms + 1) = Inr h'"
      by (simp add: appendColumn_def Let_def)
    from updateSubRowSpan_other[OF this assms(2)] sameColumn_setRowSpan[OF assms(2)]
    show ?thesis by (rule sameColumn_trans[rotated])
  qed
qed

lemma relinkOrDelete_other:
  assumes "relinkOrDelete data h mainA d sc = Inr h'" "d \<noteq> c"
  shows "sameColumn c h h'"
proof (cases "sc > 1")
  case False
  with assms show ?thesis by (auto simp: relinkOrDelete_def sameColumn_deleteRowSpan)
next
  case True
  with assms(1) obtain g where
    "updateSubRowSpan (setRowSpan h mainA d g) data mainA d 1 sc = Inr h'"
    by (auto simp: relinkOrDelete_def split: option.splits)
  from updateSubRowSpan_other[OF this assms(2)] sameColumn_setRowSpan[OF assms(2)]
  show ?thesis by (rule sameColumn_trans[rotated])
qed

lemma promote_other:
  assumes "promote h mainA d sc = Inr h'" "d \<noteq> c"
  shows "sameColumn c h h'"
  using assms by (auto simp: promote_def sameColumn_refl sameColumn_setRowSpan split: if_splits option.splits)

lemma removeColumn_other:
  assumes "removeColumn data removedRow nextRow keep h d = Inr h'" "d \<noteq> c"
  shows "sameColumn c h h'"
proof -
  from assms(1) obtain rs where rs: "spanEntry h removedRow d = Some rs"
    by (auto simp: removeColumn_def split: option.splits)
  show ?thesis
  proof (cases "mainRow rs")
    case True
    with assms(1) rs obtain h1 where h1: "promote h nextRow d (count rs - 1) = Inr h1"
      and fin: "relinkOrDelete data (if keep then copyCell h1 nextRow removedRow d else h1)
                  nextRow d (count rs - 1) = Inr h'"
      by (auto simp: removeColumn_def Let_def split: sum.splits)
    have "sameColumn c h1 (if keep then copyCell h1 nextRow removedRow d else h1)"
      using assms(2) by (simp add: sameColumn_refl sameColumn_copyCell)
    with promote_other[OF h1 assms(2)] relinkOrDelete_other[OF fin assms(2)]
    show ?thesis by (blast intro: sameColumn_trans)
  next
    case False
    with assms(1) rs obtain mainA ms where
      "findProp (mainRowKey rs) h data = Some mainA" "spanEntry h mainA d = Some ms"
      "relinkOrDelete data h mainA d (spanCount ms - 1) = Inr h'"
      by (auto simp: removeColumn_def split: option.splits)
    from relinkOrDelete_other[OF this(3) assms(2)] show ?thesis .
  qed
qed

lemma forEachE_other:
  assumes fr: "\<forall>h h' d. f h d = Inr h' \<longrightarrow> d \<noteq> c \<longrightarrow> sameColumn c h h'"
  shows "forEachE f ks h = Inr h' \<Longrightarrow> c \<notin> set ks \<Longrightarrow> sameColumn c h h'"
proof (induction ks arbitrary: h)
  case Nil
  then show ?case by (simp add: sameColumn_refl)
next
  case (Cons k ks)
  from Cons.prems obtain h1 where h1: "f h k = Inr h1" "forEachE f ks h1 = Inr h'"
    by (auto split: sum.splits)
  from Cons.prems(2) have "k \<noteq> c" "c \<notin> set ks" by auto
  with fr h1(1) Cons.IH[OF h1(2)] show ?case by (blast intro: sameColumn_trans)
qed

lemma forEachE_column:
  assumes fr: "\<forall>h h' d. f h d = Inr h' \<longrightarrow> d \<noteq> c \<longrightarrow> sameColumn c h h'"
  shows "forEachE f ks h = Inr h' \<Longrightarrow> c \<in> set ks \<Longrightarrow> distinct ks \<Longrightarrow>
         \<exists>h1 h2. sameColumn c h h1 \<and> f h1 c = Inr h2 \<and> sameColumn c h2 h'"
proof (induction ks arbitrary: h)
  case Nil
  then show ?case by simp
next
  case (Cons k ks)
  from Cons.prems(1) obtain hk where hk: "f h k = Inr hk" "forEachE f ks hk = Inr h'"
    by (auto split: sum.splits)
  show ?case
  proof (cases "k = c")
    case True
    with Cons.prems(3) have "c \<notin> set ks" by simp
    from forEachE_other[OF fr hk(2) this] hk(1) True sameColumn_refl[of c h]
    show ?thesis by blast
  next
    case False
    with Cons.prems have "c \<in> set ks" "distinct ks" by auto
    from Cons.IH[OF hk(2) this] obtain h1 h2 where
      "sameColumn c hk h1" "f h1 c = Inr h2" "sameColumn c h2 h'" by blast
    moreover from fr hk(1) False have "sameColumn c h hk" by blast
    ultimately show ?thesis by (blast intro: sameColumn_trans)
  qed
qed

text \<open>Re-linking a span on column \<open>c\<close>: the main entry \<open>g\<close> is written, then the loop of
  \<^verbatim>\<open>updateSubRowSpan\<close> runs from offset 1.\<close>

lemma relink_effect:
  assumes run: "updateSubRowSpan (setRowSpan h mainA c g) data mainA c 1 sc = Inr h'"
      and keys: "distinct (map (\<lambda>a. rowKey (h a)) data)"
  shows "(\<forall>a. rowKey (h' a) = rowKey (h a) \<and> cells (h' a) = cells (h a))
       \<and> spanEntry h' mainA c = Some g
       \<and> (\<forall>ofs. 1 \<le> ofs \<and> ofs < sc \<longrightarrow>
            (\<exists>a. js_nth data (findPropIndex (rowKey (h mainA)) (map h data) + ofs) = Some a
                \<and> spanEntry h' a c = Some (createRowSpan False (rowKey (h mainA)) (- ofs) sc)))
       \<and> (\<forall>a. a \<noteq> mainA
              \<and> (\<forall>ofs. 1 \<le> ofs \<and> ofs < sc \<longrightarrow>
                    js_nth data (findPropIndex (rowKey (h mainA)) (map h data) + ofs) \<noteq> Some a)
              \<longrightarrow> spanEntry h' a c = spanEntry h a c)"
proof -
  let ?h0 = "setRowSpan h mainA c g"
  let ?mi = "findPropIndex (rowKey (h mainA)) (map h data)"
  have mi: "findPropIndex (rowKey (?h0 mainA)) (map ?h0 data) = ?mi"
    using findPropIndex_map_cong[of ?h0 h "rowKey (h mainA)" data] by (simp add: heap_simps)
  from run have loop: "updateSubRowSpanLoop data mainA c ?mi 1 sc ?h0 = Inr h'"
    by (simp add: updateSubRowSpan_def Let_def mi)
  from keys have dd: "distinct data" by (simp add: distinct_map)
  note fr = updateSubRowSpanLoop_frame[OF loop]
  note su = updateSubRowSpanLoop_subs[OF loop dd]
  have notmain: "\<forall>ofs. 1 \<le> ofs \<and> ofs < sc \<longrightarrow> js_nth data (?mi + ofs) \<noteq> Some mainA"
    using not_at_later_offset[OF keys] by blast
  show ?thesis
  proof (intro conjI allI impI)
    fix a
    show "rowKey (h' a) = rowKey (h a)" using fr by (simp add: heap_simps)
    show "cells (h' a) = cells (h a)" using fr by (simp add: heap_simps)
  next
    from fr notmain have "spanEntry h' mainA c = spanEntry ?h0 mainA c" by blast
    then show "spanEntry h' mainA c = Some g" by (simp add: heap_simps)
  next
    fix ofs assume "1 \<le> ofs \<and> ofs < sc"
    with su show "\<exists>a. js_nth data (?mi + ofs) = Some a
                \<and> spanEntry h' a c = Some (createRowSpan False (rowKey (h mainA)) (- ofs) sc)"
      by (simp add: heap_simps)
  next
    fix a assume a: "a \<noteq> mainA \<and> (\<forall>ofs. 1 \<le> ofs \<and> ofs < sc \<longrightarrow> js_nth data (?mi + ofs) \<noteq> Some a)"
    with fr have "spanEntry h' a c = spanEntry ?h0 a c" by blast
    with a show "spanEntry h' a c = spanEntry h a c" by (simp add: heap_simps)
  qed
qed

section \<open>Appending a row inside a span (C2)\<close>

lemma appendColumn_effect:
  assumes run: "appendColumn data prevRow ext h c = Inr h'"
      and keys: "distinct (map (\<lambda>a. rowKey (h a)) data)"
      and prev: "spanEntry h prevRow c = Some ps"
  shows "\<exists>mainA ms. spanMainRow h data prevRow ps = Some mainA \<and> spanEntry h mainA c = Some ms
           \<and> (if spanCount ms > appendStartOffset ps ext
               then grownSpan h h' data c mainA ms
               else (\<forall>a. spanEntry h' a c = spanEntry h a c))"
proof -
  from run prev obtain mainA ms where m: "spanMainRow h data prevRow ps = Some mainA"
    "spanEntry h mainA c = Some ms"
    by (auto simp: appendColumn_def split: option.splits)
  show ?thesis
  proof (cases "spanCount ms > appendStartOffset ps ext")
    case False
    with run prev m show ?thesis by (auto simp: appendColumn_def)
  next
    case True
    with run prev m have
      "updateSubRowSpan (setRowSpan h mainA c (ms\<lparr>count := count ms + 1, spanCount := spanCount ms + 1\<rparr>))
         data mainA c 1 (spanCount ms + 1) = Inr h'"
      by (simp add: appendColumn_def Let_def)
    from relink_effect[OF this keys] have "grownSpan h h' data c mainA ms"
      unfolding grownSpan_def by blast
    with m True show ?thesis by auto
  qed
qed

lemma sameColumn_keys:
  "sameColumn c h h1 \<Longrightarrow> (\<lambda>a. rowKey (h1 a)) = (\<lambda>a. rowKey (h a))"
  by (auto simp: sameColumn_def)

lemma sameColumn_spanMainRow:
  "sameColumn c h h1 \<Longrightarrow> spanMainRow h1 data row rs = spanMainRow h data row rs"
  using findProp_cong[of h1 h "mainRowKey rs" data] by (simp add: spanMainRow_def sameColumn_def)

lemma grownSpan_transport:
  assumes "sameColumn c h h1" "grownSpan h1 h2 data c mainA ms" "sameColumn c h2 h'"
  shows "grownSpan h h' data c mainA ms"
proof -
  from assms(1) have k: "\<And>a. rowKey (h1 a) = rowKey (h a)" and e: "\<And>a. spanEntry h1 a c = spanEntry h a c"
    by (auto simp: sameColumn_def)
  from assms(3) have e': "\<And>a. spanEntry h' a c = spanEntry h2 a c" by (auto simp: sameColumn_def)
  have fi: "\<And>v. findPropIndex v (map h1 data) = findPropIndex v (map h data)"
    using findPropIndex_map_cong[of h1 h _ data] k by simp
  from assms(2) show ?thesis unfolding grownSpan_def by (simp add: k e e' fi)
qed

lemma updateRowSpanWhenAppend_column:
  assumes run: "updateRowSpanWhenAppend h data prevRow ext = Inr h'"
      and keys: "distinct (map (\<lambda>a. rowKey (h a)) data)"
      and prev: "spanEntry h prevRow c = Some ps"
  shows "\<exists>mainA ms. spanMainRow h data prevRow ps = Some mainA \<and> spanEntry h mainA c = Some ms
           \<and> (if spanCount ms > appendStartOffset ps ext
               then grownSpan h h' data c mainA ms
               else (\<forall>a. spanEntry h' a c = spanEntry h a c))"
proof -
  from prev have ne: "\<not> isEmpty (rowSpanMap (h prevRow))"
    by (auto simp: spanEntry_def isEmpty_def)
  from prev have cin: "c \<in> set (Object_keys (rowSpanMap (h prevRow)))"
    by (auto simp: set_Object_keys spanEntry_def)
  from run ne have fe: "forEachE (appendColumn data prevRow ext) (Object_keys (rowSpanMap (h prevRow))) h = Inr h'"
    by (simp add: updateRowSpanWhenAppend_def Let_def)
  have fr: "\<forall>h h' d. appendColumn data prevRow ext h d = Inr h' \<longrightarrow> d \<noteq> c \<longrightarrow> sameColumn c h h'"
    using appendColumn_other by blast
  from forEachE_column[OF fr fe cin distinct_Object_keys] obtain h1 h2 where
    s1: "sameColumn c h h1" and st: "appendColumn data prevRow ext h1 c = Inr h2" and s2: "sameColumn c h2 h'"
    by blast
  from s1 have e: "\<And>a. spanEntry h1 a c = spanEntry h a c" by (auto simp: sameColumn_def)
  from s2 have e': "\<And>a. spanEntry h' a c = spanEntry h2 a c" by (auto simp: sameColumn_def)
  from keys have keys1: "distinct (map (\<lambda>a. rowKey (h1 a)) data)" by (simp add: sameColumn_keys[OF s1])
  from prev have prev1: "spanEntry h1 prevRow c = Some ps" by (simp add: e)
  from appendColumn_effect[OF st keys1 prev1] obtain mainA ms where
    m: "spanMainRow h1 data prevRow ps = Some mainA" "spanEntry h1 mainA c = Some ms"
       "if spanCount ms > appendStartOffset ps ext
               then grownSpan h1 h2 data c mainA ms
               else (\<forall>a. spanEntry h2 a c = spanEntry h1 a c)" by blast
  show ?thesis
  proof (intro exI[of _ mainA] exI[of _ ms] conjI)
    show "spanMainRow h data prevRow ps = Some mainA" using m(1) by (simp add: sameColumn_spanMainRow[OF s1])
    show "spanEntry h mainA c = Some ms" using m(2) by (simp add: e)
    show "if spanCount ms > appendStartOffset ps ext
               then grownSpan h h' data c mainA ms
               else (\<forall>a. spanEntry h' a c = spanEntry h a c)"
    proof (cases "spanCount ms > appendStartOffset ps ext")
      case True
      with m(3) grownSpan_transport[OF s1 _ s2] show ?thesis by simp
    next
      case False
      with m(3) show ?thesis by (simp add: e e')
    qed
  qed
qed

lemma updateSubRowSpanLoop_returns:
  "off \<ge> 1 \<Longrightarrow> rowsFollow data mi sc \<Longrightarrow> \<exists>h'. updateSubRowSpanLoop data mainA c mi off sc h = Inr h'"
proof (induction data mainA c mi off sc h rule: updateSubRowSpanLoop.induct)
  case (1 data mainA c mi off sc h)
  show ?case
  proof (cases "off < sc")
    case False
    then show ?thesis by (subst updateSubRowSpanLoop.simps) simp
  next
    case True
    with "1.prems" have "0 \<le> mi + off" "mi + off < int (length data)"
      by (auto simp: rowsFollow_def)
    then obtain row where row: "js_nth data (mi + off) = Some row" by (simp add: js_nth_def)
    from "1.IH"[OF True row _ "1.prems"(2)] "1.prems"(1) True row show ?thesis
      by (subst updateSubRowSpanLoop.simps) simp
  qed
qed

lemma updateSubRowSpan_returns:
  assumes "rowsFollow data (findPropIndex (rowKey (h mainA)) (map h data)) sc"
  shows "\<exists>h'. updateSubRowSpan h data mainA c 1 sc = Inr h'"
  using updateSubRowSpanLoop_returns[OF _ assms, of 1] by (simp add: updateSubRowSpan_def Let_def)

lemma findPropIndex_setRowSpan:
  "findPropIndex v (map (setRowSpan h a c rs) data) = findPropIndex v (map h data)"
  using findPropIndex_map_cong[of "setRowSpan h a c rs" h v data] by (simp add: heap_simps)

lemma findPropIndex_copyCell:
  "findPropIndex v (map (copyCell h t s c) data) = findPropIndex v (map h data)"
  using findPropIndex_map_cong[of "copyCell h t s c" h v data] by (simp add: heap_simps)

lemma appendColumn_returns:
  assumes "appendable h data prevRow ext d"
  shows "\<exists>h'. appendColumn data prevRow ext h d = Inr h'"
proof (cases "spanEntry h prevRow d")
  case None
  then show ?thesis by (simp add: appendColumn_def)
next
  case (Some ps)
  with assms obtain mainA ms where m: "spanMainRow h data prevRow ps = Some mainA"
    "spanEntry h mainA d = Some ms"
    and rf: "spanCount ms \<le> appendStartOffset ps ext
             \<or> rowsFollow data (findPropIndex (rowKey (h mainA)) (map h data)) (spanCount ms + 1)"
    by (auto simp: appendable_def spanMainRow_def appendStartOffset_def split: option.splits)
  show ?thesis
  proof (cases "spanCount ms > appendStartOffset ps ext")
    case False
    with Some m show ?thesis by (simp add: appendColumn_def)
  next
    case True
    let ?h0 = "setRowSpan h mainA d (ms\<lparr>count := count ms + 1, spanCount := spanCount ms + 1\<rparr>)"
    from True rf have "rowsFollow data (findPropIndex (rowKey (?h0 mainA)) (map ?h0 data)) (spanCount ms + 1)"
      by (simp add: heap_simps findPropIndex_setRowSpan)
    from updateSubRowSpan_returns[OF this] Some m True show ?thesis
      by (simp add: appendColumn_def Let_def)
  qed
qed

lemma relinkOrDelete_returns:
  assumes "sc \<le> 1 \<or> (spanEntry h mainA d \<noteq> None
             \<and> rowsFollow data (findPropIndex (rowKey (h mainA)) (map h data)) sc)"
  shows "\<exists>h'. relinkOrDelete data h mainA d sc = Inr h'"
proof (cases "sc > 1")
  case False
  then show ?thesis by (simp add: relinkOrDelete_def)
next
  case True
  with assms obtain ms where ms: "spanEntry h mainA d = Some ms"
    and rf: "rowsFollow data (findPropIndex (rowKey (h mainA)) (map h data)) sc" by auto
  let ?h0 = "setRowSpan h mainA d (ms\<lparr>count := sc, spanCount := sc\<rparr>)"
  from rf have "rowsFollow data (findPropIndex (rowKey (?h0 mainA)) (map ?h0 data)) sc"
    by (simp add: heap_simps findPropIndex_setRowSpan)
  from updateSubRowSpan_returns[OF this] True ms show ?thesis
    by (simp add: relinkOrDelete_def)
qed

lemma removeColumn_returns:
  assumes "removable h data removedRow nextRow d"
  shows "\<exists>h'. removeColumn data removedRow nextRow keep h d = Inr h'"
proof -
  from assms obtain rs where rs: "spanEntry h removedRow d = Some rs"
    by (auto simp: removable_def split: option.splits)
  show ?thesis
  proof (cases "mainRow rs")
    case True
    let ?sc = "count rs - 1"
    from assms rs True have c: "?sc \<le> 1 \<or> (spanEntry h nextRow d \<noteq> None
         \<and> rowsFollow data (findPropIndex (rowKey (h nextRow)) (map h data)) ?sc)"
      by (simp add: removable_def)
    then obtain h1 where h1: "promote h nextRow d ?sc = Inr h1"
      and e1: "?sc \<le> 1 \<or> spanEntry h1 nextRow d \<noteq> None"
      and k1: "\<forall>a. rowKey (h1 a) = rowKey (h a)"
      by (cases "?sc > 1") (auto simp: promote_def heap_simps)
    let ?h2 = "if keep then copyCell h1 nextRow removedRow d else h1"
    have k2: "\<forall>a. rowKey (?h2 a) = rowKey (h a)" using k1 by (simp add: heap_simps)
    have "findPropIndex (rowKey (?h2 nextRow)) (map ?h2 data) = findPropIndex (rowKey (h nextRow)) (map h data)"
      using findPropIndex_map_cong[OF k2, of "rowKey (h nextRow)" data] k2 by simp
    with c e1 have "?sc \<le> 1 \<or> (spanEntry ?h2 nextRow d \<noteq> None
         \<and> rowsFollow data (findPropIndex (rowKey (?h2 nextRow)) (map ?h2 data)) ?sc)"
      by (auto simp: heap_simps)
    from relinkOrDelete_returns[OF this] obtain h' where
      "relinkOrDelete data ?h2 nextRow d ?sc = Inr h'" by blast
    with rs True h1 show ?thesis by (simp add: removeColumn_def Let_def)
  next
    case False
    with assms rs obtain mainA ms where m: "findProp (mainRowKey rs) h data = Some mainA"
      "spanEntry h mainA d = Some ms"
      "rowsFollow data (findPropIndex (rowKey (h mainA)) (map h data)) (spanCount ms - 1)"
      by (auto simp: removable_def split: option.splits)
    then have "spanCount ms - 1 \<le> 1 \<or> (spanEntry h mainA d \<noteq> None
         \<and> rowsFollow data (findPropIndex (rowKey (h mainA)) (map h data)) (spanCount ms - 1))"
      by simp
    from relinkOrDelete_returns[OF this] rs False m show ?thesis
      by (simp add: removeColumn_def)
  qed
qed

lemma sameColumn_findPropIndex:
  "sameColumn d h h1 \<Longrightarrow> findPropIndex v (map h1 data) = findPropIndex v (map h data)"
  using findPropIndex_map_cong[of h1 h v data] by (simp add: sameColumn_def)

lemma appendable_sameColumn:
  assumes "sameColumn d h h1"
  shows "appendable h1 data prevRow ext d = appendable h data prevRow ext d"
proof -
  from assms have k: "\<And>a. rowKey (h1 a) = rowKey (h a)" and e: "\<And>a. spanEntry h1 a d = spanEntry h a d"
    by (auto simp: sameColumn_def)
  have fp: "\<And>v. findProp v h1 data = findProp v h data"
    using findProp_cong[of h1 h _ data] k by simp
  show ?thesis
    unfolding appendable_def
    by (simp add: k e fp sameColumn_findPropIndex[OF assms] cong: option.case_cong if_cong)
qed

lemma removable_sameColumn:
  assumes "sameColumn d h h1"
  shows "removable h1 data removedRow nextRow d = removable h data removedRow nextRow d"
proof -
  from assms have k: "\<And>a. rowKey (h1 a) = rowKey (h a)" and e: "\<And>a. spanEntry h1 a d = spanEntry h a d"
    by (auto simp: sameColumn_def)
  have fp: "\<And>v. findProp v h1 data = findProp v h data"
    using findProp_cong[of h1 h _ data] k by simp
  show ?thesis
    unfolding removable_def
    by (simp add: k e fp sameColumn_findPropIndex[OF assms] cong: option.case_cong if_cong)
qed

lemma forEachE_returns:
  assumes step: "\<forall>h d. P h d \<longrightarrow> (\<exists>h'. f h d = Inr h')"
      and frame: "\<forall>h h' d c. f h d = Inr h' \<longrightarrow> d \<noteq> c \<longrightarrow> sameColumn c h h'"
      and cong: "\<forall>h h1 d. sameColumn d h h1 \<longrightarrow> P h1 d = P h d"
  shows "distinct ks \<Longrightarrow> \<forall>d \<in> set ks. P h d \<Longrightarrow> \<exists>h'. forEachE f ks h = Inr h'"
proof (induction ks arbitrary: h)
  case Nil
  then show ?case by simp
next
  case (Cons k ks)
  from Cons.prems(2) have "P h k" by simp
  with step obtain h1 where h1: "f h k = Inr h1" by blast
  have "\<forall>d \<in> set ks. P h1 d"
  proof
    fix d assume d: "d \<in> set ks"
    with Cons.prems(1) have "k \<noteq> d" by auto
    with frame h1 have "sameColumn d h h1" by blast
    with cong Cons.prems(2) d show "P h1 d" by auto
  qed
  with Cons.IH[of h1] Cons.prems(1) h1 show ?case by simp
qed

lemma updateRowSpanWhenAppend_returns:
  assumes "\<forall>d \<in> set (Object_keys (rowSpanMap (h prevRow))). appendable h data prevRow ext d"
  shows "\<exists>h'. updateRowSpanWhenAppend h data prevRow ext = Inr h'"
proof -
  have "\<exists>h'. forEachE (appendColumn data prevRow ext) (Object_keys (rowSpanMap (h prevRow))) h = Inr h'"
  proof (rule forEachE_returns[where P = "\<lambda>h d. appendable h data prevRow ext d"])
    show "\<forall>h d. appendable h data prevRow ext d \<longrightarrow> (\<exists>h'. appendColumn data prevRow ext h d = Inr h')"
      using appendColumn_returns by blast
    show "\<forall>h h' d c. appendColumn data prevRow ext h d = Inr h' \<longrightarrow> d \<noteq> c \<longrightarrow> sameColumn c h h'"
      using appendColumn_other by blast
    show "\<forall>h h1 d. sameColumn d h h1 \<longrightarrow> appendable h1 data prevRow ext d = appendable h data prevRow ext d"
      using appendable_sameColumn by blast
  qed (use assms distinct_Object_keys in auto)
  then show ?thesis by (simp add: updateRowSpanWhenAppend_def Let_def)
qed

lemma updateRowSpanWhenRemove_returns:
  assumes "\<forall>d \<in> set (Object_keys (rowSpanMap (h removedRow))). removable h data removedRow nextRow d"
  shows "\<exists>h'. updateRowSpanWhenRemove h data removedRow nextRow keep = Inr h'"
proof -
  have "\<exists>h'. forEachE (removeColumn data removedRow nextRow keep)
               (Object_keys (rowSpanMap (h removedRow))) h = Inr h'"
  proof (rule forEachE_returns[where P = "\<lambda>h d. removable h data removedRow nextRow d"])
    show "\<forall>h d. removable h data removedRow nextRow d
            \<longrightarrow> (\<exists>h'. removeColumn data removedRow nextRow keep h d = Inr h')"
      using removeColumn_returns by blast
    show "\<forall>h h' d c. removeColumn data removedRow nextRow keep h d = Inr h' \<longrightarrow> d \<noteq> c
            \<longrightarrow> sameColumn c h h'"
      using removeColumn_other by blast
    show "\<forall>h h1 d. sameColumn d h h1
            \<longrightarrow> removable h1 data removedRow nextRow d = removable h data removedRow nextRow d"
      using removable_sameColumn by blast
  qed (use assms distinct_Object_keys in auto)
  then show ?thesis by (simp add: updateRowSpanWhenRemove_def Let_def)
qed

text \<open>With distinct row keys, the index found for the key of the row at index \<open>m\<close> is \<open>m\<close>,
  so the span's main row and the rows at the offsets after it are rows of \<open>data\<close> by index.\<close>

lemma findPropIndex_at:
  assumes "distinct (map (\<lambda>a. rowKey (h a)) data)" "m < length data"
  shows "findPropIndex (rowKey (h (data ! m))) (map h data) = int m"
proof -
  from assms(2) have "data ! m \<in> set data" by simp
  from findPropIndex_own[OF assms(1) this]
  have "js_nth data (findPropIndex (rowKey (h (data ! m))) (map h data)) = Some (data ! m)" .
  moreover from assms(2) have "js_nth data (int m) = Some (data ! m)" by (simp add: js_nth_def)
  moreover from assms(1) have "distinct data" by (simp add: distinct_map)
  ultimately show ?thesis by (rule js_nth_inj[rotated])
qed

lemma spanMainRow_at:
  assumes keys: "distinct (map (\<lambda>a. rowKey (h a)) data)" and m: "m < length data"
      and at: "if mainRow ps then data ! m = prevRow else rowKey (h (data ! m)) = mainRowKey ps"
  shows "spanMainRow h data prevRow ps = Some (data ! m)"
proof (cases "mainRow ps")
  case True
  with at show ?thesis by (simp add: spanMainRow_def)
next
  case False
  with at have "findPropIndex (mainRowKey ps) (map h data) = int m"
    using findPropIndex_at[OF keys m] by simp
  with False m show ?thesis by (simp add: spanMainRow_def findProp_def js_nth_def)
qed

lemma grownSpan_at:
  assumes keys: "distinct (map (\<lambda>a. rowKey (h a)) data)" and m: "m < length data"
      and g: "grownSpan h h' data c (data ! m) ms"
  shows "int m + spanCount ms + 1 \<le> int (length data)
       \<and> spanEntry h' (data ! m) c
           = Some (ms\<lparr>count := count ms + 1, spanCount := spanCount ms + 1\<rparr>)
       \<and> (\<forall>j. 1 \<le> j \<and> int j < spanCount ms + 1 \<longrightarrow>
             spanEntry h' (data ! (m + j)) c
               = Some (createRowSpan False (rowKey (h (data ! m))) (- int j) (spanCount ms + 1)))
       \<and> (\<forall>a. a \<noteq> data ! m
               \<and> (\<forall>j. 1 \<le> j \<and> int j < spanCount ms + 1 \<longrightarrow> a \<noteq> data ! (m + j))
               \<longrightarrow> spanEntry h' a c = spanEntry h a c)"
proof -
  note mi = findPropIndex_at[OF keys m]
  from g have main: "spanEntry h' (data ! m) c
           = Some (ms\<lparr>count := count ms + 1, spanCount := spanCount ms + 1\<rparr>)"
    and subs: "\<And>ofs. 1 \<le> ofs \<Longrightarrow> ofs < spanCount ms + 1 \<Longrightarrow>
            \<exists>a. js_nth data (int m + ofs) = Some a
                \<and> spanEntry h' a c
                    = Some (createRowSpan False (rowKey (h (data ! m))) (- ofs) (spanCount ms + 1))"
    and rest: "\<And>a. a \<noteq> data ! m \<Longrightarrow>
            (\<forall>ofs. 1 \<le> ofs \<and> ofs < spanCount ms + 1 \<longrightarrow> js_nth data (int m + ofs) \<noteq> Some a)
            \<Longrightarrow> spanEntry h' a c = spanEntry h a c"
    unfolding grownSpan_def mi by blast+
  have at: "js_nth data (int m + int j) = Some a \<Longrightarrow> a = data ! (m + j)" for j a
    by (auto simp: js_nth_def nat_add_distrib split: if_splits)
  have bound: "int m + spanCount ms + 1 \<le> int (length data)"
  proof (cases "1 \<le> spanCount ms")
    case True
    from subs[OF True] obtain a where "js_nth data (int m + spanCount ms) = Some a" by auto
    then show ?thesis by (auto simp: js_nth_def split: if_splits)
  next
    case False
    with m show ?thesis by simp
  qed
  have sub: "spanEntry h' (data ! (m + j)) c
               = Some (createRowSpan False (rowKey (h (data ! m))) (- int j) (spanCount ms + 1))"
    if "1 \<le> j" "int j < spanCount ms + 1" for j
  proof -
    from that subs[of "int j"] obtain a where a: "js_nth data (int m + int j) = Some a"
      "spanEntry h' a c
         = Some (createRowSpan False (rowKey (h (data ! m))) (- int j) (spanCount ms + 1))"
      by auto
    from at[OF a(1)] a(2) show ?thesis by simp
  qed
  have frame: "spanEntry h' a c = spanEntry h a c"
    if "a \<noteq> data ! m" "\<forall>j. 1 \<le> j \<and> int j < spanCount ms + 1 \<longrightarrow> a \<noteq> data ! (m + j)" for a
  proof (rule rest[OF that(1)], intro allI impI notI)
    fix ofs assume ofs: "1 \<le> ofs \<and> ofs < spanCount ms + 1" and hit: "js_nth data (int m + ofs) = Some a"
    from ofs have "ofs = int (nat ofs)" "1 \<le> nat ofs" "int (nat ofs) < spanCount ms + 1" by auto
    with at[of "nat ofs" a] hit that(2) show False by auto
  qed
  from bound main sub frame show ?thesis by blast
qed

text \<open>
  C2. \<^verbatim>\<open>updateRowSpanWhenAppend(data, prevRow, extendPrevRowSpan)\<close> returns normally when
  every spanned column of \<^verbatim>\<open>prevRow\<close> is \<open>appendable\<close>. Let it return normally on a row list with
  pairwise distinct row keys, let \<^verbatim>\<open>prevRow\<close> carry a span entry on column \<open>c\<close>, and let the row
  at index \<open>m\<close> of \<^verbatim>\<open>data\<close> be the span's main row: \<^verbatim>\<open>prevRow\<close> itself if its entry is the main
  entry, else the row whose key is the entry's \<^verbatim>\<open>mainRowKey\<close>. Then the main row has an entry
  on \<open>c\<close>, and with the start offset being 1 when \<^verbatim>\<open>prevRow\<close> is the main row or
  \<^verbatim>\<open>extendPrevRowSpan\<close> is true, and \<^verbatim>\<open>-count + 1\<close> otherwise: if the main entry's \<^verbatim>\<open>spanCount\<close> is
  greater than the start offset, then the main entry's \<^verbatim>\<open>count\<close> and \<^verbatim>\<open>spanCount\<close> are
  incremented by exactly 1, the rows at the offsets 1 to the new \<^verbatim>\<open>spanCount - 1\<close> after
  index \<open>m\<close> exist and each gets the sub entry (\<^verbatim>\<open>mainRow\<close> false, the main row's key,
  \<^verbatim>\<open>count = -offset\<close>, the new \<^verbatim>\<open>spanCount\<close>), and every other row keeps its entry; otherwise no
  entry of column \<open>c\<close> changes. And when \<^verbatim>\<open>prevRow\<close>'s span map is empty the call returns the
  store as it was.
\<close>

theorem updateRowSpanWhenAppend_span:
  "((\<forall>d \<in> set (Object_keys (rowSpanMap (h prevRow))). appendable h data prevRow extendPrevRowSpan d)
      \<longrightarrow> (\<exists>h1. updateRowSpanWhenAppend h data prevRow extendPrevRowSpan = Inr h1))
   \<and> (updateRowSpanWhenAppend h data prevRow extendPrevRowSpan = Inr h' \<longrightarrow>
      distinct (map (\<lambda>a. rowKey (h a)) data) \<longrightarrow>
      spanEntry h prevRow c = Some prevRowSpan \<longrightarrow>
      m < length data \<longrightarrow>
      (if mainRow prevRowSpan then data ! m = prevRow
       else rowKey (h (data ! m)) = mainRowKey prevRowSpan) \<longrightarrow>
        (\<exists>mainRowSpan.
            spanEntry h (data ! m) c = Some mainRowSpan
          \<and> (if spanCount mainRowSpan
                   > (if mainRow prevRowSpan \<or> extendPrevRowSpan then 1 else - count prevRowSpan + 1)
              then int m + spanCount mainRowSpan + 1 \<le> int (length data)
                 \<and> spanEntry h' (data ! m) c
                     = Some (mainRowSpan\<lparr>count := count mainRowSpan + 1,
                                         spanCount := spanCount mainRowSpan + 1\<rparr>)
                 \<and> (\<forall>j. 1 \<le> j \<and> int j < spanCount mainRowSpan + 1 \<longrightarrow>
                       spanEntry h' (data ! (m + j)) c
                         = Some \<lparr>mainRow = False, mainRowKey = rowKey (h (data ! m)),
                                 count = - int j, spanCount = spanCount mainRowSpan + 1\<rparr>)
                 \<and> (\<forall>a. a \<noteq> data ! m
                         \<and> (\<forall>j. 1 \<le> j \<and> int j < spanCount mainRowSpan + 1 \<longrightarrow> a \<noteq> data ! (m + j))
                         \<longrightarrow> spanEntry h' a c = spanEntry h a c)
              else (\<forall>a. spanEntry h' a c = spanEntry h a c))))
   \<and> (rowSpanMap (h prevRow) = [] \<longrightarrow>
        updateRowSpanWhenAppend h data prevRow extendPrevRowSpan = Inr h)"
proof (intro conjI impI)
  assume "\<forall>d \<in> set (Object_keys (rowSpanMap (h prevRow))). appendable h data prevRow extendPrevRowSpan d"
  then show "\<exists>h1. updateRowSpanWhenAppend h data prevRow extendPrevRowSpan = Inr h1"
    by (rule updateRowSpanWhenAppend_returns)
next
  assume "rowSpanMap (h prevRow) = []"
  then show "updateRowSpanWhenAppend h data prevRow extendPrevRowSpan = Inr h"
    by (simp add: updateRowSpanWhenAppend_def isEmpty_def)
next
  assume run: "updateRowSpanWhenAppend h data prevRow extendPrevRowSpan = Inr h'"
    and keys: "distinct (map (\<lambda>a. rowKey (h a)) data)"
    and prev: "spanEntry h prevRow c = Some prevRowSpan"
    and m: "m < length data"
    and at: "if mainRow prevRowSpan then data ! m = prevRow
             else rowKey (h (data ! m)) = mainRowKey prevRowSpan"
  from updateRowSpanWhenAppend_column[OF run keys prev] spanMainRow_at[OF keys m at]
  obtain ms where ms: "spanEntry h (data ! m) c = Some ms"
    and res: "if spanCount ms > appendStartOffset prevRowSpan extendPrevRowSpan
              then grownSpan h h' data c (data ! m) ms
              else (\<forall>a. spanEntry h' a c = spanEntry h a c)"
    by auto
  show "\<exists>mainRowSpan.
            spanEntry h (data ! m) c = Some mainRowSpan
          \<and> (if spanCount mainRowSpan
                   > (if mainRow prevRowSpan \<or> extendPrevRowSpan then 1 else - count prevRowSpan + 1)
              then int m + spanCount mainRowSpan + 1 \<le> int (length data)
                 \<and> spanEntry h' (data ! m) c
                     = Some (mainRowSpan\<lparr>count := count mainRowSpan + 1,
                                         spanCount := spanCount mainRowSpan + 1\<rparr>)
                 \<and> (\<forall>j. 1 \<le> j \<and> int j < spanCount mainRowSpan + 1 \<longrightarrow>
                       spanEntry h' (data ! (m + j)) c
                         = Some \<lparr>mainRow = False, mainRowKey = rowKey (h (data ! m)),
                                 count = - int j, spanCount = spanCount mainRowSpan + 1\<rparr>)
                 \<and> (\<forall>a. a \<noteq> data ! m
                         \<and> (\<forall>j. 1 \<le> j \<and> int j < spanCount mainRowSpan + 1 \<longrightarrow> a \<noteq> data ! (m + j))
                         \<longrightarrow> spanEntry h' a c = spanEntry h a c)
              else (\<forall>a. spanEntry h' a c = spanEntry h a c))"
  proof (cases "spanCount ms > appendStartOffset prevRowSpan extendPrevRowSpan")
    case True
    with res have "grownSpan h h' data c (data ! m) ms" by simp
    from grownSpan_at[OF keys m this] ms True show ?thesis
      by (simp add: appendStartOffset_def createRowSpan_def)
  next
    case False
    with res ms show ?thesis by (simp add: appendStartOffset_def)
  qed
qed

theorem updateRowSpanWhenAppend_span_witness:
  "Object_keys (rowSpanMap (appendHeap 1)) = [''region'']
   \<and> appendable appendHeap [0, 1, 3, 2] 1 False ''region''
   \<and> distinct (map (\<lambda>a. rowKey (appendHeap a)) [0, 1, 3, 2])
   \<and> spanEntry appendHeap 1 ''region'' = Some (createRowSpan False (VNum 1) (- 1) 3)
   \<and> rowKey (appendHeap 0) = VNum 1
   \<and> spanEntry appendHeap 0 ''region'' = Some (createRowSpan True (VNum 1) 3 3)
   \<and> (\<exists>h'. updateRowSpanWhenAppend appendHeap [0, 1, 3, 2] 1 False = Inr h'
         \<and> spanEntry h' 0 ''region'' = Some (createRowSpan True (VNum 1) 4 4)
         \<and> spanEntry h' 1 ''region'' = Some (createRowSpan False (VNum 1) (- 1) 4)
         \<and> spanEntry h' 3 ''region'' = Some (createRowSpan False (VNum 1) (- 2) 4)
         \<and> spanEntry h' 2 ''region'' = Some (createRowSpan False (VNum 1) (- 3) 4))
   \<and> Object_keys (rowSpanMap (appendHeap 2)) = [''region'']
   \<and> appendable appendHeap [0, 1, 2, 3] 2 False ''region''
   \<and> distinct (map (\<lambda>a. rowKey (appendHeap a)) [0, 1, 2, 3])
   \<and> spanEntry appendHeap 2 ''region'' = Some (createRowSpan False (VNum 1) (- 2) 3)
   \<and> (\<exists>h'. updateRowSpanWhenAppend appendHeap [0, 1, 2, 3] 2 False = Inr h'
         \<and> map (\<lambda>a. spanEntry h' a ''region'') [0, 1, 2, 3]
             = map (\<lambda>a. spanEntry appendHeap a ''region'') [0, 1, 2, 3])
   \<and> Object_keys (rowSpanMap (appendHeap 0)) = [''region'']
   \<and> appendable appendHeap [0, 3, 1, 2] 0 False ''region''
   \<and> distinct (map (\<lambda>a. rowKey (appendHeap a)) [0, 3, 1, 2])
   \<and> (\<exists>h'. updateRowSpanWhenAppend appendHeap [0, 3, 1, 2] 0 False = Inr h'
         \<and> spanEntry h' 0 ''region'' = Some (createRowSpan True (VNum 1) 4 4)
         \<and> spanEntry h' 3 ''region'' = Some (createRowSpan False (VNum 1) (- 1) 4)
         \<and> spanEntry h' 1 ''region'' = Some (createRowSpan False (VNum 1) (- 2) 4)
         \<and> spanEntry h' 2 ''region'' = Some (createRowSpan False (VNum 1) (- 3) 4))"
proof -
  have me: "spanEntry appendHeap 0 ''region'' = Some (createRowSpan True (VNum 1) 3 3)"
    and mk: "rowKey (appendHeap 0) = VNum 1"
    by code_simp+
  have colsA: "Object_keys (rowSpanMap (appendHeap 1)) = [''region'']"
    and okA: "appendable appendHeap [0, 1, 3, 2] 1 False ''region''"
    and keysA: "distinct (map (\<lambda>a. rowKey (appendHeap a)) [0, 1, 3, 2])"
    and prevA: "spanEntry appendHeap 1 ''region'' = Some (createRowSpan False (VNum 1) (- 1) 3)"
    by code_simp+
  note instA = updateRowSpanWhenAppend_span[of appendHeap 1 "[0, 1, 3, 2]" False _ "''region''"
      "createRowSpan False (VNum 1) (- 1) 3" 0]
  from instA colsA okA obtain hA where hA: "updateRowSpanWhenAppend appendHeap [0, 1, 3, 2] 1 False = Inr hA"
    by auto
  from instA[of hA] hA keysA prevA me mk
  have grownA: "spanEntry hA 0 ''region'' = Some (createRowSpan True (VNum 1) 4 4)"
    and subsA: "\<forall>j. 1 \<le> j \<and> int j < 4 \<longrightarrow>
                  spanEntry hA ([0, 1, 3, 2] ! j) ''region''
                    = Some (createRowSpan False (VNum 1) (- int j) 4)"
    by (simp_all add: createRowSpan_def)
  from subsA[rule_format, of 1] subsA[rule_format, of 2] subsA[rule_format, of 3]
  have sA: "spanEntry hA 1 ''region'' = Some (createRowSpan False (VNum 1) (- 1) 4)"
    "spanEntry hA 3 ''region'' = Some (createRowSpan False (VNum 1) (- 2) 4)"
    "spanEntry hA 2 ''region'' = Some (createRowSpan False (VNum 1) (- 3) 4)"
    by (simp_all add: eval_nat_numeral)
  from hA grownA sA have A: "\<exists>h'. updateRowSpanWhenAppend appendHeap [0, 1, 3, 2] 1 False = Inr h'
         \<and> spanEntry h' 0 ''region'' = Some (createRowSpan True (VNum 1) 4 4)
         \<and> spanEntry h' 1 ''region'' = Some (createRowSpan False (VNum 1) (- 1) 4)
         \<and> spanEntry h' 3 ''region'' = Some (createRowSpan False (VNum 1) (- 2) 4)
         \<and> spanEntry h' 2 ''region'' = Some (createRowSpan False (VNum 1) (- 3) 4)"
    by - (rule exI[of _ hA], (intro conjI; assumption))
  have colsB: "Object_keys (rowSpanMap (appendHeap 2)) = [''region'']"
    and okB: "appendable appendHeap [0, 1, 2, 3] 2 False ''region''"
    and keysB: "distinct (map (\<lambda>a. rowKey (appendHeap a)) [0, 1, 2, 3])"
    and prevB: "spanEntry appendHeap 2 ''region'' = Some (createRowSpan False (VNum 1) (- 2) 3)"
    by code_simp+
  note instB = updateRowSpanWhenAppend_span[of appendHeap 2 "[0, 1, 2, 3]" False _ "''region''"
      "createRowSpan False (VNum 1) (- 2) 3" 0]
  from instB colsB okB obtain hB where hB: "updateRowSpanWhenAppend appendHeap [0, 1, 2, 3] 2 False = Inr hB"
    by auto
  from instB[of hB] hB keysB prevB me mk
  have "\<forall>a. spanEntry hB a ''region'' = spanEntry appendHeap a ''region''"
    by (simp add: createRowSpan_def)
  then have sB: "map (\<lambda>a. spanEntry hB a ''region'') [0, 1, 2, 3]
             = map (\<lambda>a. spanEntry appendHeap a ''region'') [0, 1, 2, 3]"
    by simp
  from hB sB have B: "\<exists>h'. updateRowSpanWhenAppend appendHeap [0, 1, 2, 3] 2 False = Inr h'
         \<and> map (\<lambda>a. spanEntry h' a ''region'') [0, 1, 2, 3]
             = map (\<lambda>a. spanEntry appendHeap a ''region'') [0, 1, 2, 3]"
    by - (rule exI[of _ hB], (intro conjI; assumption))
  have colsC: "Object_keys (rowSpanMap (appendHeap 0)) = [''region'']"
    and okC: "appendable appendHeap [0, 3, 1, 2] 0 False ''region''"
    and keysC: "distinct (map (\<lambda>a. rowKey (appendHeap a)) [0, 3, 1, 2])"
    by code_simp+
  note instC = updateRowSpanWhenAppend_span[of appendHeap 0 "[0, 3, 1, 2]" False _ "''region''"
      "createRowSpan True (VNum 1) 3 3" 0]
  from instC colsC okC obtain hC where hC: "updateRowSpanWhenAppend appendHeap [0, 3, 1, 2] 0 False = Inr hC"
    by auto
  from instC[of hC] hC keysC me mk
  have grownC: "spanEntry hC 0 ''region'' = Some (createRowSpan True (VNum 1) 4 4)"
    and subsC: "\<forall>j. 1 \<le> j \<and> int j < 4 \<longrightarrow>
                  spanEntry hC ([0, 3, 1, 2] ! j) ''region''
                    = Some (createRowSpan False (VNum 1) (- int j) 4)"
    by (simp_all add: createRowSpan_def)
  from subsC[rule_format, of 1] subsC[rule_format, of 2] subsC[rule_format, of 3]
  have sC: "spanEntry hC 3 ''region'' = Some (createRowSpan False (VNum 1) (- 1) 4)"
    "spanEntry hC 1 ''region'' = Some (createRowSpan False (VNum 1) (- 2) 4)"
    "spanEntry hC 2 ''region'' = Some (createRowSpan False (VNum 1) (- 3) 4)"
    by (simp_all add: eval_nat_numeral)
  from hC grownC sC have C: "\<exists>h'. updateRowSpanWhenAppend appendHeap [0, 3, 1, 2] 0 False = Inr h'
         \<and> spanEntry h' 0 ''region'' = Some (createRowSpan True (VNum 1) 4 4)
         \<and> spanEntry h' 3 ''region'' = Some (createRowSpan False (VNum 1) (- 1) 4)
         \<and> spanEntry h' 1 ''region'' = Some (createRowSpan False (VNum 1) (- 2) 4)
         \<and> spanEntry h' 2 ''region'' = Some (createRowSpan False (VNum 1) (- 3) 4)"
    by - (rule exI[of _ hC], (intro conjI; assumption))
  from colsA okA keysA prevA mk me A colsB okB keysB prevB B colsC okC keysC C
  show ?thesis by - (intro conjI; assumption)
qed

section \<open>Removing the main row of a span (C3, C9)\<close>

lemma updateSubRowSpan_cells:
  assumes "updateSubRowSpan h data mainA d off sc = Inr h'"
  shows "cells (h' a) = cells (h a)"
  using updateSubRowSpanLoop_frame[OF assms[unfolded updateSubRowSpan_def Let_def]] by simp

lemma relinkOrDelete_cells:
  assumes "relinkOrDelete data h mainA d sc = Inr h'"
  shows "cells (h' a) = cells (h a)"
proof (cases "sc > 1")
  case False
  with assms show ?thesis by (auto simp: relinkOrDelete_def heap_simps)
next
  case True
  with assms obtain ms where
    "updateSubRowSpan (setRowSpan h mainA d (ms\<lparr>count := sc, spanCount := sc\<rparr>)) data mainA d 1 sc = Inr h'"
    by (auto simp: relinkOrDelete_def split: option.splits)
  from updateSubRowSpan_cells[OF this, of a] show ?thesis by (simp add: heap_simps)
qed

lemma promote_cells: "promote h mainA d sc = Inr h' \<Longrightarrow> cells (h' a) = cells (h a)"
  by (auto simp: promote_def heap_simps split: if_splits option.splits)

text \<open>The parts of \<open>removeColumn\<close> when the removed row is the main row of the span.\<close>

lemma removeColumn_main_parts:
  assumes "removeColumn data removedRow nextRow keep h c = Inr h'"
      and "spanEntry h removedRow c = Some rs" "mainRow rs"
  obtains h1 where "promote h nextRow c (count rs - 1) = Inr h1"
    "relinkOrDelete data (if keep then copyCell h1 nextRow removedRow c else h1)
       nextRow c (count rs - 1) = Inr h'"
  using assms by (auto simp: removeColumn_def Let_def split: sum.splits)

lemma removeColumn_cells:
  assumes run: "removeColumn data removedRow nextRow True h c = Inr h'"
      and rs: "spanEntry h removedRow c = Some rs" "mainRow rs"
  shows "cells (h' nextRow) c = cells (h removedRow) c"
proof -
  from removeColumn_main_parts[OF run rs] obtain h1 where
    p: "promote h nextRow c (count rs - 1) = Inr h1" and
    f: "relinkOrDelete data (copyCell h1 nextRow removedRow c) nextRow c (count rs - 1) = Inr h'"
    by auto
  from relinkOrDelete_cells[OF f, of nextRow] promote_cells[OF p, of removedRow]
  show ?thesis by (simp add: heap_simps)
qed

lemma removeColumn_collapse:
  assumes run: "removeColumn data removedRow nextRow keep h c = Inr h'"
      and rs: "spanEntry h removedRow c = Some rs" "mainRow rs"
      and two: "count rs - 1 \<le> 1"
  shows "spanEntry h' nextRow c = None \<and> (\<forall>a. a \<noteq> nextRow \<longrightarrow> spanEntry h' a c = spanEntry h a c)"
proof -
  from removeColumn_main_parts[OF run rs] obtain h1 where
    p: "promote h nextRow c (count rs - 1) = Inr h1" and
    f: "relinkOrDelete data (if keep then copyCell h1 nextRow removedRow c else h1)
          nextRow c (count rs - 1) = Inr h'"
    by auto
  from p two have "h1 = h" by (simp add: promote_def)
  with f two show ?thesis by (auto simp: relinkOrDelete_def heap_simps)
qed

lemma removeColumn_promote:
  assumes run: "removeColumn data removedRow nextRow keep h c = Inr h'"
      and keys: "distinct (map (\<lambda>a. rowKey (h a)) data)"
      and rs: "spanEntry h removedRow c = Some rs" "mainRow rs"
      and big: "count rs - 1 > 1"
  shows "promotedSpan h h' data c nextRow (count rs - 1)"
proof -
  let ?sc = "count rs - 1"
  from removeColumn_main_parts[OF run rs] obtain h1 where
    p: "promote h nextRow c ?sc = Inr h1" and
    f: "relinkOrDelete data (if keep then copyCell h1 nextRow removedRow c else h1) nextRow c ?sc = Inr h'"
    by auto
  from p big obtain ms where ms: "spanEntry h nextRow c = Some ms"
    and h1: "h1 = setRowSpan h nextRow c (ms\<lparr>mainRowKey := rowKey (h nextRow), mainRow := True\<rparr>)"
    by (auto simp: promote_def split: option.splits)
  let ?h2 = "if keep then copyCell h1 nextRow removedRow c else h1"
  have k2: "\<And>a. rowKey (?h2 a) = rowKey (h a)" by (simp add: h1 heap_simps)
  have e2: "\<And>a. spanEntry ?h2 a c = (if a = nextRow
               then Some (ms\<lparr>mainRowKey := rowKey (h nextRow), mainRow := True\<rparr>)
               else spanEntry h a c)"
    by (simp add: h1 heap_simps)
  from keys have keys2: "distinct (map (\<lambda>a. rowKey (?h2 a)) data)" by (simp add: k2)
  have fi: "\<And>v. findPropIndex v (map ?h2 data) = findPropIndex v (map h data)"
    using findPropIndex_map_cong[of ?h2 h _ data] k2 by blast
  from f big e2[of nextRow] have
    "updateSubRowSpan (setRowSpan ?h2 nextRow c
        (ms\<lparr>mainRowKey := rowKey (h nextRow), mainRow := True, count := ?sc, spanCount := ?sc\<rparr>))
       data nextRow c 1 ?sc = Inr h'"
    by (simp add: relinkOrDelete_def)
  note re = relink_effect[OF this keys2]
  have g: "ms\<lparr>mainRowKey := rowKey (h nextRow), mainRow := True, count := ?sc, spanCount := ?sc\<rparr>
        = createRowSpan True (rowKey (h nextRow)) ?sc ?sc"
    by (cases ms) (simp add: createRowSpan_def)
  show ?thesis
    unfolding promotedSpan_def
  proof (intro conjI allI impI)
    show "spanEntry h' nextRow c = Some (createRowSpan True (rowKey (h nextRow)) ?sc ?sc)"
      using re g by simp
  next
    fix ofs assume "1 \<le> ofs \<and> ofs < ?sc"
    with re show "\<exists>a. js_nth data (findPropIndex (rowKey (h nextRow)) (map h data) + ofs) = Some a
                \<and> spanEntry h' a c = Some (createRowSpan False (rowKey (h nextRow)) (- ofs) ?sc)"
      by (simp add: k2 fi)
  next
    fix a assume a: "a \<noteq> nextRow
              \<and> (\<forall>ofs. 1 \<le> ofs \<and> ofs < ?sc \<longrightarrow>
                    js_nth data (findPropIndex (rowKey (h nextRow)) (map h data) + ofs) \<noteq> Some a)"
    with re have "spanEntry h' a c = spanEntry ?h2 a c" by (simp add: k2 fi)
    with a e2[of a] show "spanEntry h' a c = spanEntry h a c" by simp
  qed
qed

lemma promotedSpan_transport:
  assumes "sameColumn c h h1" "promotedSpan h1 h2 data c nextRow sc" "sameColumn c h2 h'"
  shows "promotedSpan h h' data c nextRow sc"
proof -
  from assms(1) have k: "\<And>a. rowKey (h1 a) = rowKey (h a)" and e: "\<And>a. spanEntry h1 a c = spanEntry h a c"
    by (auto simp: sameColumn_def)
  from assms(3) have e': "\<And>a. spanEntry h' a c = spanEntry h2 a c" by (auto simp: sameColumn_def)
  have fi: "\<And>v. findPropIndex v (map h1 data) = findPropIndex v (map h data)"
    using findPropIndex_map_cong[of h1 h _ data] k by simp
  from assms(2) show ?thesis unfolding promotedSpan_def by (simp add: k e e' fi)
qed

lemma updateRowSpanWhenRemove_step:
  assumes run: "updateRowSpanWhenRemove h data removedRow nextRow keep = Inr h'"
      and rs: "spanEntry h removedRow c = Some rs"
  shows "\<exists>h1 h2. sameColumn c h h1 \<and> removeColumn data removedRow nextRow keep h1 c = Inr h2
           \<and> sameColumn c h2 h'"
proof -
  from rs have ne: "\<not> isEmpty (rowSpanMap (h removedRow))"
    by (auto simp: spanEntry_def isEmpty_def)
  from rs have cin: "c \<in> set (Object_keys (rowSpanMap (h removedRow)))"
    by (auto simp: set_Object_keys spanEntry_def)
  from run ne have fe: "forEachE (removeColumn data removedRow nextRow keep)
                          (Object_keys (rowSpanMap (h removedRow))) h = Inr h'"
    by (simp add: updateRowSpanWhenRemove_def Let_def)
  have fr: "\<forall>h h' d. removeColumn data removedRow nextRow keep h d = Inr h' \<longrightarrow> d \<noteq> c
              \<longrightarrow> sameColumn c h h'"
    using removeColumn_other by blast
  from forEachE_column[OF fr fe cin distinct_Object_keys] show ?thesis .
qed

lemma removeMainRow_result:
  assumes run: "updateRowSpanWhenRemove h data removedRow nextRow keepRowSpanData = Inr h'"
      and keys: "distinct (map (\<lambda>a. rowKey (h a)) data)"
      and rs: "spanEntry h removedRow c = Some removedRowSpan" "mainRow removedRowSpan"
      and size: "count removedRowSpan = k" "spanCount removedRowSpan = k"
  shows "(3 \<le> k \<longrightarrow> promotedSpan h h' data c nextRow (k - 1))
       \<and> (keepRowSpanData \<longrightarrow> cells (h' nextRow) c = cells (h removedRow) c)
       \<and> (k = 2 \<longrightarrow> spanEntry h' nextRow c = None
                     \<and> (\<forall>a. a \<noteq> nextRow \<longrightarrow> spanEntry h' a c = spanEntry h a c))"
proof -
  from updateRowSpanWhenRemove_step[OF run rs(1)] obtain h1 h2 where
    s1: "sameColumn c h h1" and st: "removeColumn data removedRow nextRow keepRowSpanData h1 c = Inr h2"
    and s2: "sameColumn c h2 h'" by blast
  from s1 have e: "\<And>a. spanEntry h1 a c = spanEntry h a c" and ce: "\<And>a. cells (h1 a) c = cells (h a) c"
    by (auto simp: sameColumn_def)
  from s2 have e': "\<And>a. spanEntry h' a c = spanEntry h2 a c" and ce': "\<And>a. cells (h' a) c = cells (h2 a) c"
    by (auto simp: sameColumn_def)
  from keys have keys1: "distinct (map (\<lambda>a. rowKey (h1 a)) data)" by (simp add: sameColumn_keys[OF s1])
  from rs(1) have rs1: "spanEntry h1 removedRow c = Some removedRowSpan" by (simp add: e)
  have a: "promotedSpan h h' data c nextRow (k - 1)" if "3 \<le> k"
  proof -
    from that size have "count removedRowSpan - 1 > 1" by simp
    from removeColumn_promote[OF st keys1 rs1 rs(2) this] size
    have "promotedSpan h1 h2 data c nextRow (k - 1)" by simp
    from promotedSpan_transport[OF s1 this s2] show ?thesis .
  qed
  have b: "cells (h' nextRow) c = cells (h removedRow) c" if keepRowSpanData
    using removeColumn_cells[OF st[unfolded eqTrueI[OF that]] rs1 rs(2)] by (simp add: ce ce')
  have d: "spanEntry h' nextRow c = None \<and> (\<forall>a. a \<noteq> nextRow \<longrightarrow> spanEntry h' a c = spanEntry h a c)"
    if "k = 2"
  proof -
    from that size have "count removedRowSpan - 1 \<le> 1" by simp
    from removeColumn_collapse[OF st rs1 rs(2) this] show ?thesis by (simp add: e e')
  qed
  from a b d show ?thesis by blast
qed

lemma removeKeepsValue_result:
  assumes run: "updateRowSpanWhenRemove h data removedRow nextRow True = Inr h'"
      and rs: "spanEntry h removedRow c = Some removedRowSpan" "mainRow removedRowSpan"
  shows "cells (h' nextRow) c = cells (h removedRow) c
       \<and> (count removedRowSpan = 2 \<longrightarrow>
            (\<forall>g. promote g nextRow c (count removedRowSpan - 1) = Inr g)
            \<and> spanEntry h' nextRow c = None)"
proof -
  from updateRowSpanWhenRemove_step[OF run rs(1)] obtain h1 h2 where
    s1: "sameColumn c h h1" and st: "removeColumn data removedRow nextRow True h1 c = Inr h2"
    and s2: "sameColumn c h2 h'" by blast
  from s1 have e: "\<And>a. spanEntry h1 a c = spanEntry h a c" and ce: "\<And>a. cells (h1 a) c = cells (h a) c"
    by (auto simp: sameColumn_def)
  from s2 have e': "\<And>a. spanEntry h' a c = spanEntry h2 a c" and ce': "\<And>a. cells (h' a) c = cells (h2 a) c"
    by (auto simp: sameColumn_def)
  from rs(1) have rs1: "spanEntry h1 removedRow c = Some removedRowSpan" by (simp add: e)
  have copied: "cells (h' nextRow) c = cells (h removedRow) c"
    using removeColumn_cells[OF st rs1 rs(2)] by (simp add: ce ce')
  have collapsed: "spanEntry h' nextRow c = None" if "count removedRowSpan = 2"
  proof -
    from that have "count removedRowSpan - 1 \<le> 1" by simp
    from removeColumn_collapse[OF st rs1 rs(2) this] show ?thesis by (simp add: e')
  qed
  have skipped: "\<forall>g. promote g nextRow c (count removedRowSpan - 1) = Inr g" if "count removedRowSpan = 2"
    using that by (simp add: promote_def)
  from copied collapsed skipped show ?thesis by blast
qed

text \<open>
  C3, as amended. Let \<^verbatim>\<open>removedRow\<close> carry the main entry of a span of size \<open>k\<close> on column \<open>c\<close>
  (\<^verbatim>\<open>count\<close> and \<^verbatim>\<open>spanCount\<close> equal to \<open>k\<close>) and let the row keys of \<^verbatim>\<open>data\<close> be pairwise distinct.
  \<^verbatim>\<open>updateRowSpanWhenRemove(data, removedRow, nextRow, keepRowSpanData)\<close> returns normally when
  every spanned column of the removed row is \<open>removable\<close>, and whenever it returns normally:
  if \<open>k \<ge> 3\<close>, then \<^verbatim>\<open>nextRow\<close> becomes the main row (\<^verbatim>\<open>mainRow\<close> true, \<^verbatim>\<open>mainRowKey\<close> its own key)
  with \<^verbatim>\<open>count\<close> and \<^verbatim>\<open>spanCount\<close> equal to \<open>k - 1\<close>, and the row at every offset from 1 to
  \<open>k - 2\<close> after it gets the sub entry linked to it (\<open>promotedSpan\<close>); if \<^verbatim>\<open>keepRowSpanData\<close> is
  true, the cell of \<^verbatim>\<open>nextRow\<close> in column \<open>c\<close> is the removed row's; if \<open>k = 2\<close>, the entry of
  \<^verbatim>\<open>nextRow\<close> is deleted, so the remaining member is unspanned for \<open>c\<close>, and no other row's
  entry changes: the removed row's own object keeps its main entry.
\<close>

theorem updateRowSpanWhenRemove_main_row:
  "((\<forall>d \<in> set (Object_keys (rowSpanMap (h removedRow))). removable h data removedRow nextRow d)
      \<longrightarrow> (\<exists>h1. updateRowSpanWhenRemove h data removedRow nextRow keepRowSpanData = Inr h1))
   \<and> (updateRowSpanWhenRemove h data removedRow nextRow keepRowSpanData = Inr h' \<longrightarrow>
      distinct (map (\<lambda>a. rowKey (h a)) data) \<longrightarrow>
      spanEntry h removedRow c = Some removedRowSpan \<longrightarrow>
      mainRow removedRowSpan \<longrightarrow> count removedRowSpan = k \<longrightarrow> spanCount removedRowSpan = k \<longrightarrow>
        (3 \<le> k \<longrightarrow> promotedSpan h h' data c nextRow (k - 1))
      \<and> (keepRowSpanData \<longrightarrow> cells (h' nextRow) c = cells (h removedRow) c)
      \<and> (k = 2 \<longrightarrow> spanEntry h' nextRow c = None
                    \<and> (\<forall>a. a \<noteq> nextRow \<longrightarrow> spanEntry h' a c = spanEntry h a c)
                    \<and> (removedRow \<noteq> nextRow \<longrightarrow> spanEntry h' removedRow c = Some removedRowSpan)))"
proof (intro conjI impI)
  assume "\<forall>d \<in> set (Object_keys (rowSpanMap (h removedRow))). removable h data removedRow nextRow d"
  then show "\<exists>h1. updateRowSpanWhenRemove h data removedRow nextRow keepRowSpanData = Inr h1"
    by (rule updateRowSpanWhenRemove_returns)
next
  assume a: "updateRowSpanWhenRemove h data removedRow nextRow keepRowSpanData = Inr h'"
    "distinct (map (\<lambda>a. rowKey (h a)) data)" "spanEntry h removedRow c = Some removedRowSpan"
    "mainRow removedRowSpan" "count removedRowSpan = k" "spanCount removedRowSpan = k"
  note r = removeMainRow_result[OF a]
  {
    assume "3 \<le> k"
    with r show "promotedSpan h h' data c nextRow (k - 1)" by blast
  next
    assume keepRowSpanData
    with r show "cells (h' nextRow) c = cells (h removedRow) c" by blast
  next
    assume "k = 2"
    with r show "spanEntry h' nextRow c = None" by blast
  next
    assume "k = 2"
    with r show "\<forall>a. a \<noteq> nextRow \<longrightarrow> spanEntry h' a c = spanEntry h a c" by blast
  next
    assume "k = 2" "removedRow \<noteq> nextRow"
    with r a(3) show "spanEntry h' removedRow c = Some removedRowSpan" by simp
  }
qed

theorem updateRowSpanWhenRemove_main_row_witness:
  "Object_keys (rowSpanMap (removeHeap 0)) = [''region'']
   \<and> removable removeHeap [1, 2] 0 1 ''region''
   \<and> distinct (map (\<lambda>a. rowKey (removeHeap a)) [1, 2])
   \<and> spanEntry removeHeap 0 ''region'' = Some (createRowSpan True (VNum 1) 3 3)
   \<and> cells (removeHeap 0) ''region'' = VStr ''north''
   \<and> (\<exists>h'. updateRowSpanWhenRemove removeHeap [1, 2] 0 1 True = Inr h'
         \<and> promotedSpan removeHeap h' [1, 2] ''region'' 1 2
         \<and> cells (h' 1) ''region'' = VStr ''north''
         \<and> map (\<lambda>a. spanEntry h' a ''region'') [1, 2]
             = [Some (createRowSpan True (VNum 2) 2 2), Some (createRowSpan False (VNum 2) (- 1) 2)])
   \<and> Object_keys (rowSpanMap (pairHeap 0)) = [''region'']
   \<and> removable pairHeap [1] 0 1 ''region''
   \<and> distinct (map (\<lambda>a. rowKey (pairHeap a)) [1])
   \<and> spanEntry pairHeap 0 ''region'' = Some (createRowSpan True (VNum 1) 2 2)
   \<and> (\<exists>h'. updateRowSpanWhenRemove pairHeap [1] 0 1 False = Inr h'
         \<and> spanEntry h' 1 ''region'' = None
         \<and> spanEntry h' 0 ''region'' = Some (createRowSpan True (VNum 1) 2 2))"
proof -
  have cols2: "Object_keys (rowSpanMap (pairHeap 0)) = [''region'']"
    and ok2: "removable pairHeap [1] 0 1 ''region''"
    and keys2: "distinct (map (\<lambda>a. rowKey (pairHeap a)) [1])"
    and rs2: "spanEntry pairHeap 0 ''region'' = Some (createRowSpan True (VNum 1) 2 2)"
    by code_simp+
  note inst2 = updateRowSpanWhenRemove_main_row[of pairHeap 0 "[1]" 1 False _ "''region''"
      "createRowSpan True (VNum 1) 2 2" 2]
  from inst2 cols2 ok2 obtain h2 where h2: "updateRowSpanWhenRemove pairHeap [1] 0 1 False = Inr h2"
    by auto
  from inst2[of h2] h2 keys2 rs2
  have res2: "spanEntry h2 1 ''region'' = None"
    "spanEntry h2 0 ''region'' = Some (createRowSpan True (VNum 1) 2 2)"
    by (simp_all add: createRowSpan_def)
  from h2 res2 have pair: "\<exists>h'. updateRowSpanWhenRemove pairHeap [1] 0 1 False = Inr h'
         \<and> spanEntry h' 1 ''region'' = None
         \<and> spanEntry h' 0 ''region'' = Some (createRowSpan True (VNum 1) 2 2)"
    by - (rule exI[of _ h2], (intro conjI; assumption))
  have cols: "Object_keys (rowSpanMap (removeHeap 0)) = [''region'']"
    and ok: "removable removeHeap [1, 2] 0 1 ''region''"
    and keys: "distinct (map (\<lambda>a. rowKey (removeHeap a)) [1, 2])"
    and rs: "spanEntry removeHeap 0 ''region'' = Some (createRowSpan True (VNum 1) 3 3)"
    and cell: "cells (removeHeap 0) ''region'' = VStr ''north''"
    by code_simp+
  note inst = updateRowSpanWhenRemove_main_row[of removeHeap 0 "[1, 2]" 1 True _ "''region''"
      "createRowSpan True (VNum 1) 3 3" 3]
  from inst cols ok obtain h' where h': "updateRowSpanWhenRemove removeHeap [1, 2] 0 1 True = Inr h'"
    by auto
  from inst[of h'] h' keys rs cell
  have res: "promotedSpan removeHeap h' [1, 2] ''region'' 1 2" "cells (h' 1) ''region'' = VStr ''north''"
    by (simp_all add: createRowSpan_def)
  have "case updateRowSpanWhenRemove removeHeap [1, 2] 0 1 True of
          Inl e \<Rightarrow> False
        | Inr h' \<Rightarrow> map (\<lambda>a. spanEntry h' a ''region'') [1, 2]
             = [Some (createRowSpan True (VNum 2) 2 2), Some (createRowSpan False (VNum 2) (- 1) 2)]"
    by code_simp
  with h' have entries: "map (\<lambda>a. spanEntry h' a ''region'') [1, 2]
             = [Some (createRowSpan True (VNum 2) 2 2), Some (createRowSpan False (VNum 2) (- 1) 2)]"
    by simp
  from h' res entries have "\<exists>h'. updateRowSpanWhenRemove removeHeap [1, 2] 0 1 True = Inr h'
         \<and> promotedSpan removeHeap h' [1, 2] ''region'' 1 2
         \<and> cells (h' 1) ''region'' = VStr ''north''
         \<and> map (\<lambda>a. spanEntry h' a ''region'') [1, 2]
             = [Some (createRowSpan True (VNum 2) 2 2), Some (createRowSpan False (VNum 2) (- 1) 2)]"
    by - (rule exI[of _ h'], (intro conjI; assumption))
  with cols ok keys rs cell cols2 ok2 keys2 rs2 pair show ?thesis
    by - (intro conjI; assumption)
qed

text \<open>
  C3 as stated fails for \<open>k = 2\<close>: only one of the two former members ends up unspanned. The
  rows with keys 1 and 0 form a span of two rows on \<^verbatim>\<open>region\<close>; after the main row (address 0)
  is removed, the entry of the remaining row is deleted, but the removed row's own span map
  still holds its main entry: the function never writes to \<^verbatim>\<open>removedRow\<close>.
\<close>

theorem updateRowSpanWhenRemove_main_row_counterexample:
  "spanEntry pairHeap 0 ''region'' = Some (createRowSpan True (VNum 1) 2 2)
   \<and> spanEntry pairHeap 1 ''region'' = Some (createRowSpan False (VNum 1) (- 1) 2)
   \<and> (case updateRowSpanWhenRemove pairHeap [1] 0 1 False of
         Inl e \<Rightarrow> False
       | Inr h' \<Rightarrow> spanEntry h' 1 ''region'' = None
                 \<and> spanEntry h' 0 ''region'' = Some (createRowSpan True (VNum 1) 2 2))"
  by code_simp

text \<open>
  C9. Let \<^verbatim>\<open>removedRow\<close> carry a main entry on column \<open>c\<close> and let \<^verbatim>\<open>keepRowSpanData\<close> be true.
  \<^verbatim>\<open>updateRowSpanWhenRemove\<close> returns normally when every spanned column of the removed row
  is \<open>removable\<close>, and whenever it returns normally the cell of \<^verbatim>\<open>nextRow\<close> in column \<open>c\<close> is the
  removed row's, whatever the size of the span. When the span has size 2 (the main entry's
  \<^verbatim>\<open>count\<close> is 2), the promotion step leaves every store as it is and the entry of \<^verbatim>\<open>nextRow\<close>
  on \<open>c\<close> is deleted: the row is not a main row, yet it holds the removed row's value.
\<close>

theorem updateRowSpanWhenRemove_copies_value:
  "((\<forall>d \<in> set (Object_keys (rowSpanMap (h removedRow))). removable h data removedRow nextRow d)
      \<longrightarrow> (\<exists>h1. updateRowSpanWhenRemove h data removedRow nextRow True = Inr h1))
   \<and> (updateRowSpanWhenRemove h data removedRow nextRow True = Inr h' \<longrightarrow>
      spanEntry h removedRow c = Some removedRowSpan \<longrightarrow> mainRow removedRowSpan \<longrightarrow>
        cells (h' nextRow) c = cells (h removedRow) c
      \<and> (count removedRowSpan = 2 \<longrightarrow>
            (\<forall>g. promote g nextRow c (count removedRowSpan - 1) = Inr g)
            \<and> spanEntry h' nextRow c = None))"
  using removeKeepsValue_result[of h data removedRow nextRow h' c removedRowSpan]
        updateRowSpanWhenRemove_returns[of h removedRow data nextRow True]
  by blast

theorem updateRowSpanWhenRemove_copies_value_witness:
  "Object_keys (rowSpanMap (pairHeap 0)) = [''region'']
   \<and> removable pairHeap [1] 0 1 ''region''
   \<and> spanEntry pairHeap 0 ''region'' = Some (createRowSpan True (VNum 1) 2 2)
   \<and> spanEntry pairHeap 1 ''region'' = Some (createRowSpan False (VNum 1) (- 1) 2)
   \<and> cells (pairHeap 0) ''region'' = VStr ''north''
   \<and> cells (pairHeap 1) ''region'' = VStr ''south''
   \<and> (\<exists>h'. updateRowSpanWhenRemove pairHeap [1] 0 1 True = Inr h'
         \<and> cells (h' 1) ''region'' = VStr ''north''
         \<and> spanEntry h' 1 ''region'' = None)"
proof -
  have cols: "Object_keys (rowSpanMap (pairHeap 0)) = [''region'']"
    and ok: "removable pairHeap [1] 0 1 ''region''"
    and rs: "spanEntry pairHeap 0 ''region'' = Some (createRowSpan True (VNum 1) 2 2)"
    and sub: "spanEntry pairHeap 1 ''region'' = Some (createRowSpan False (VNum 1) (- 1) 2)"
    and cell: "cells (pairHeap 0) ''region'' = VStr ''north''" "cells (pairHeap 1) ''region'' = VStr ''south''"
    by code_simp+
  note inst = updateRowSpanWhenRemove_copies_value[of pairHeap 0 "[1]" 1 _ "''region''"
      "createRowSpan True (VNum 1) 2 2"]
  from inst cols ok obtain h' where h': "updateRowSpanWhenRemove pairHeap [1] 0 1 True = Inr h'"
    by auto
  from inst[of h'] h' rs cell
  have "cells (h' 1) ''region'' = VStr ''north''" "spanEntry h' 1 ''region'' = None"
    by (simp_all add: createRowSpan_def)
  with h' have "\<exists>h'. updateRowSpanWhenRemove pairHeap [1] 0 1 True = Inr h'
         \<and> cells (h' 1) ''region'' = VStr ''north''
         \<and> spanEntry h' 1 ''region'' = None"
    by - (rule exI[of _ h'], (intro conjI; assumption))
  with cols ok rs sub cell show ?thesis
    by - (intro conjI; assumption)
qed

end
